theory Spec2Isabelle
  imports Main
begin

section \<open>Exceptions, dictionaries and effects\<close>

text \<open>
  The connector raises Python's built-in exceptions. An exception is modelled by its
  class and its message; a function that may raise returns \<open>exn + 'a\<close>, with \<open>Inl\<close>
  for the exception that leaves the call.
\<close>

datatype exn_class =
    ValueError
  | FileNotFoundError
  | IndexError
  | TypeError
  | KeyError
  | AttributeError

datatype exn = Exn (exn_class: exn_class) (exn_message: string)

text \<open>
  A \<open>dict\<close> (and the \<open>__dict__\<close> of a \<open>SimpleNamespace\<close>) is an association list in
  insertion order; a well-formed one has distinct keys.
\<close>

type_synonym ('k, 'a) dict = "('k \<times> 'a) list"

text \<open>
  A dict comprehension \<open>{ k: f(k, v) for k, v in d.items() }\<close> whose body may raise:
  the items are evaluated in order and the first exception leaves the comprehension.
\<close>

fun dict_comprehension :: "('k \<Rightarrow> 'a \<Rightarrow> exn + 'b) \<Rightarrow> ('k, 'a) dict \<Rightarrow> exn + ('k, 'b) dict" where
  "dict_comprehension f [] = Inr []"
| "dict_comprehension f ((k, v) # d) =
     (case f k v of
        Inl e \<Rightarrow> Inl e
      | Inr b \<Rightarrow> (case dict_comprehension f d of
                   Inl e \<Rightarrow> Inl e
                 | Inr r \<Rightarrow> Inr ((k, b) # r)))"

text \<open>\<open>sep.join(xs)\<close> on strings.\<close>

fun str_join :: "string \<Rightarrow> string list \<Rightarrow> string" where
  "str_join sep [] = []"
| "str_join sep [x] = x"
| "str_join sep (x # y # ys) = x @ sep @ str_join sep (y # ys)"

text \<open>\<open>v[0]\<close> on a list: \<open>IndexError\<close> when the list is empty.\<close>

definition first_item :: "'a list \<Rightarrow> exn + 'a" where
  "first_item v = (case v of [] \<Rightarrow> Inl (Exn IndexError ''list index out of range'') | x # _ \<Rightarrow> Inr x)"

section \<open>Utility functions of the connector\<close>


text \<open>
  \<open>__get_single_file(files, ids)\<close>: \<open>ids\<close> is the namespace of per-name value lists.
\<close>

definition get_single_file :: "string list \<Rightarrow> (string, 'v list) dict \<Rightarrow> exn + (string \<times> (string, 'v) dict)" where
  "get_single_file files ids =
     (if length files = 0 then Inl (Exn FileNotFoundError ''No file found matching the query.'')
      else if length files > 1 then Inl (Exn FileNotFoundError ''Multiple files found matching the query.'')
      else (case dict_comprehension (\<lambda>k v. first_item v) ids of
              Inl e \<Rightarrow> Inl e
            | Inr ident \<Rightarrow> Inr (files ! 0, ident)))"

section \<open>Hexadecimal identifiers\<close>

text \<open>
  \<open>int(value, base)\<close> on a string, as CPython reads it: surrounding white space (the
  characters 9 to 13 and the blank) is dropped, then an optional sign, then for base 16 (8, 2) an optional prefix \<open>0x\<close>
  (\<open>0o\<close>, \<open>0b\<close>) and one underscore after it, then digits with single underscores
  between them; anything else is a \<open>ValueError\<close> (its message is shortened here: Python
  appends the base and the literal). Strings are ASCII.
\<close>

definition is_space :: "char \<Rightarrow> bool" where
  "is_space c = (let n = (of_char c :: nat) in (9 \<le> n \<and> n \<le> 13) \<or> n = 32)"

definition digit_value :: "char \<Rightarrow> nat option" where
  "digit_value c =
     (let n = (of_char c :: nat) in
      if 48 \<le> n \<and> n \<le> 57 then Some (n - 48)
      else if 97 \<le> n \<and> n \<le> 122 then Some (n - 87)
      else if 65 \<le> n \<and> n \<le> 90 then Some (n - 55)
      else None)"

definition digit_in :: "nat \<Rightarrow> char \<Rightarrow> nat option" where
  "digit_in base c =
     (case digit_value c of None \<Rightarrow> None | Some d \<Rightarrow> if d < base then Some d else None)"

fun int_body :: "nat \<Rightarrow> nat \<Rightarrow> string \<Rightarrow> nat option" where
  "int_body base acc [] = Some acc"
| "int_body base acc (c # cs) =
     (case digit_in base c of
        Some d \<Rightarrow> int_body base (base * acc + d) cs
      | None \<Rightarrow>
          if c = CHR ''_'' then
            (case cs of
               [] \<Rightarrow> None
             | c' # cs' \<Rightarrow>
                 (case digit_in base c' of
                    None \<Rightarrow> None
                  | Some d \<Rightarrow> int_body base (base * acc + d) cs'))
          else if list_all is_space (c # cs) then Some acc
          else None)"

definition skip_prefix :: "nat \<Rightarrow> string \<Rightarrow> string" where
  "skip_prefix base s =
     (case s of
        c # x # r \<Rightarrow>
          if c = CHR ''0'' \<and>
             (base = 16 \<and> (x = CHR ''x'' \<or> x = CHR ''X'')
              \<or> base = 8 \<and> (x = CHR ''o'' \<or> x = CHR ''O'')
              \<or> base = 2 \<and> (x = CHR ''b'' \<or> x = CHR ''B''))
          then (case r of u # r' \<Rightarrow> if u = CHR ''_'' then r' else r | [] \<Rightarrow> r)
          else s
      | _ \<Rightarrow> s)"

definition int_literal :: "nat \<Rightarrow> string \<Rightarrow> nat option" where
  "int_literal base s =
     (case skip_prefix base s of
        [] \<Rightarrow> None
      | c # cs \<Rightarrow> (case digit_in base c of None \<Rightarrow> None | Some d \<Rightarrow> int_body base d cs))"

definition py_int :: "nat \<Rightarrow> string \<Rightarrow> exn + int" where
  "py_int base s =
     (case (case dropWhile is_space s of
              [] \<Rightarrow> None
            | c # r \<Rightarrow>
                if c = CHR ''-'' then map_option (\<lambda>n. - int n) (int_literal base r)
                else if c = CHR ''+'' then map_option int (int_literal base r)
                else map_option int (int_literal base (c # r))) of
        None \<Rightarrow> Inl (Exn ValueError ''invalid literal for int()'')
      | Some v \<Rightarrow> Inr v)"

text \<open>
  \<open>format(v, '0Wx')\<close> on an integer: lower-case hexadecimal digits, padded with zeros
  after the sign to the width \<open>W\<close>.
\<close>

definition hex_char :: "nat \<Rightarrow> char" where
  "hex_char d = ''0123456789abcdef'' ! d"

function digits16 :: "nat \<Rightarrow> nat list" where
  "digits16 n = (if n < 16 then [n] else digits16 (n div 16) @ [n mod 16])"
  by pat_completeness auto
termination
  by (relation "measure id") auto

definition format_0x :: "nat \<Rightarrow> int \<Rightarrow> string" where
  "format_0x width v =
     (if v < 0
      then CHR ''-'' # replicate (width - 1 - length (digits16 (nat (- v)))) CHR ''0''
             @ map hex_char (digits16 (nat (- v)))
      else replicate (width - length (digits16 (nat v))) CHR ''0'' @ map hex_char (digits16 (nat v)))"

text \<open>\<open>HexIDFilter._parse_value(value)\<close>: \<open>int(value, 16)\<close>; \<open>None\<close> is not a string.\<close>

definition HexIDFilter_parse_value :: "string option \<Rightarrow> exn + int" where
  "HexIDFilter_parse_value v =
     (case v of
        None \<Rightarrow> Inl (Exn TypeError ''int() can't convert non-string with explicit base'')
      | Some s \<Rightarrow> py_int 16 s)"

text \<open>
  Modelled from the spec: \<open>format_value\<close> of the filter base class is not among the
  sources at hand; the spec has it render a value with the filter's print format. The
  connector constructs its hexadecimal filters with the format \<open>'{:016x}'\<close>
  (\<open>FileSystemConnector.__init__\<close>), so this is \<open>'{:016x}'.format(value)\<close>.
\<close>

definition format_value_016x :: "int \<Rightarrow> string" where
  "format_value_016x v = format_0x 16 v"

section \<open>Python objects, filters, regular expressions and the operating system\<close>

text \<open>
  The values that travel through the connector: \<open>None\<close>, strings, filter objects, the
  typed scalar values \<open>'v\<close> that filters parse from file names, and lists and tuples
  (a set query is a list, a range query a tuple).
\<close>

datatype ('f, 'v) pyobj =
    PyNone
  | PyStr string
  | PyFilter 'f
  | PyVal 'v
  | PyList "('f, 'v) pyobj list"
  | PyTuple "('f, 'v) pyobj list"

text \<open>
  The filter classes (\<open>IntFilter\<close>, \<open>HexFilter\<close>, \<open>DateFilter\<close>, \<open>StringFilter\<close>) are
  imported by the connector and are not among the sources at hand. A filter object is a
  value of a type \<open>'f\<close>, and what the connector calls on it is a parameter of the model:
  the \<open>values\<close> setter, \<open>get_glob_pattern\<close>, \<open>parse_value\<close> and \<open>match\<close> (the setter and
  the parser may raise), and the constructors of the four classes (called with \<open>name\<close>
  and \<open>format\<close>, \<open>None\<close> when left out).
\<close>

record ('f, 'v) filter_ops =
  set_values :: "'f \<Rightarrow> ('f, 'v) pyobj \<Rightarrow> exn + 'f"
  get_glob_pattern :: "'f \<Rightarrow> string"
  parse_value :: "'f \<Rightarrow> string option \<Rightarrow> exn + ('f, 'v) pyobj"
  match :: "'f \<Rightarrow> ('f, 'v) pyobj \<Rightarrow> bool"

record 'f filter_classes =
  IntFilter :: "string option \<Rightarrow> string option \<Rightarrow> 'f"
  HexFilter :: "string option \<Rightarrow> string option \<Rightarrow> 'f"
  DateFilter :: "string option \<Rightarrow> string option \<Rightarrow> 'f"
  StringFilter :: "string option \<Rightarrow> string option \<Rightarrow> 'f"

text \<open>
  A regular expression is modelled by what \<open>re.search(regex, path)\<close> returns: \<open>None\<close>, or
  a match object, which is the table of its named groups. A group of the pattern that
  took no part in the match has the value \<open>None\<close>; \<open>match.group(k)\<close> raises
  \<open>IndexError\<close> when the pattern has no group named \<open>k\<close>.
\<close>

type_synonym rmatch = "string \<rightharpoonup> string option"

type_synonym regex = "string \<Rightarrow> rmatch option"

definition group :: "rmatch \<Rightarrow> string \<Rightarrow> exn + string option" where
  "group m k = (case m k of None \<Rightarrow> Inl (Exn IndexError ''no such group'') | Some g \<Rightarrow> Inr g)"

text \<open>
  What the connector asks of the operating system and of Python's library: \<open>glob\<close>,
  \<open>os.path.abspath\<close> and \<open>str.format\<close> with keyword arguments (on the glob fragments,
  which are strings, and on the values of an identity).
\<close>

record ('f, 'v) os_env =
  glob :: "string \<Rightarrow> string list"
  abspath :: "string \<Rightarrow> string"
  str_format :: "string \<Rightarrow> (string, string) dict \<Rightarrow> exn + string"
  obj_format :: "string \<Rightarrow> (string, ('f, 'v) pyobj) dict \<Rightarrow> exn + string"

text \<open>
  The effects a call leaves behind, in order: a warning written to the logger, a glob
  expansion and the reading of a data product are the events of a call. A function with
  effects returns its events and its result.
\<close>

datatype event =
    Warning string
  | Glob string
  | Read string string

type_synonym 'a io = "event list \<times> (exn + 'a)"

definition bind_io :: "'a io \<Rightarrow> ('a \<Rightarrow> 'b io) \<Rightarrow> 'b io" where
  "bind_io c f =
     (case c of
        (evs, Inl e) \<Rightarrow> (evs, Inl e)
      | (evs, Inr a) \<Rightarrow> (case f a of (evs', r) \<Rightarrow> (evs @ evs', r)))"

definition pure_io :: "exn + 'a \<Rightarrow> 'a io" where
  "pure_io r = ([], r)"

text \<open>
  \<open>os.path.join(a, *p)\<close> of \<open>posixpath\<close>; without an argument the call is a \<open>TypeError\<close>
  (its message is shortened here: Python goes on to name the missing argument \<open>a\<close>).
\<close>

definition join2 :: "string \<Rightarrow> string \<Rightarrow> string" where
  "join2 path b =
     (if b \<noteq> [] \<and> hd b = CHR ''/'' then b
      else if path = [] \<or> last path = CHR ''/'' then path @ b
      else path @ ''/'' @ b)"

definition os_path_join :: "string list \<Rightarrow> exn + string" where
  "os_path_join parts =
     (case parts of
        [] \<Rightarrow> Inl (Exn TypeError ''join() missing 1 required positional argument'')
      | a # p \<Rightarrow> Inr (foldl join2 a p))"

section \<open>Parsing a file name\<close>

text \<open>\<open>p.parse_value(match.group(k))\<close>, for the filter \<open>p\<close> named \<open>k\<close>.\<close>

definition parse_group ::
  "('f, 'v) filter_ops \<Rightarrow> rmatch \<Rightarrow> string \<Rightarrow> 'f \<Rightarrow> exn + ('f, 'v) pyobj" where
  "parse_group ops m k p = (case group m k of Inl e \<Rightarrow> Inl e | Inr g \<Rightarrow> parse_value ops p g)"

definition throw_or_warn :: "string \<Rightarrow> bool \<Rightarrow> exn_class \<Rightarrow> unit io" where
  "throw_or_warn message required exception_type =
     (if required then ([], Inl (Exn exception_type message))
      else ([Warning message], Inr ()))"

text \<open>
  \<open>__parse_filename_params(path, params, regex, required=True)\<close>; the result \<open>None\<close> is
  Python's \<open>None\<close>.
\<close>

definition parse_filename_params ::
  "('f, 'v) filter_ops \<Rightarrow> string \<Rightarrow> (string, 'f) dict \<Rightarrow> regex \<Rightarrow> bool
     \<Rightarrow> (string, ('f, 'v) pyobj) dict option io" where
  "parse_filename_params ops path params regex required =
     (case regex path of
        Some m \<Rightarrow>
          pure_io
            (case dict_comprehension (\<lambda>k p. parse_group ops m k p) params of
               Inl e \<Rightarrow> Inl e
             | Inr ident \<Rightarrow> Inr (Some ident))
      | None \<Rightarrow>
          bind_io (throw_or_warn (''Filename does not match expected format: '' @ path) required ValueError)
            (\<lambda>_. pure_io (Inr None)))"

section \<open>Discovery\<close>

text \<open>\<open>d[k] = x\<close> for a key the dict has: the item keeps its place.\<close>

definition dict_set :: "('k, 'a) dict \<Rightarrow> 'k \<Rightarrow> 'a \<Rightarrow> ('k, 'a) dict" where
  "dict_set d k x = map (\<lambda>(k', y). if k' = k then (k', x) else (k', y)) d"

text \<open>\<open>d[k].append(x)\<close> for a key the dict has.\<close>

definition dict_append :: "('k, 'a list) dict \<Rightarrow> 'k \<Rightarrow> 'a \<Rightarrow> ('k, 'a list) dict" where
  "dict_append d k x = map (\<lambda>(k', l). if k' = k then (k', l @ [x]) else (k', l)) d"

text \<open>
  The first loop of \<open>__find_files_and_match_params\<close>: the caller's values, in the order of
  \<open>param_values\<close>, set the query of the filter of the same name; \<open>self_attr\<close> is the
  attribute table of the connector (\<open>hasattr\<close> and \<open>getattr\<close>).
\<close>

fun update_params ::
  "('f, 'v) filter_ops \<Rightarrow> (string \<rightharpoonup> ('f, 'v) pyobj) \<Rightarrow> (string, 'f) dict
     \<Rightarrow> (string, ('f, 'v) pyobj) dict \<Rightarrow> exn + (string, 'f) dict" where
  "update_params ops self_attr params [] = Inr params"
| "update_params ops self_attr params ((k, v) # param_values) =
     (case map_of params k of
        None \<Rightarrow> update_params ops self_attr params param_values
      | Some p \<Rightarrow>
          if v \<noteq> PyNone then
            (case set_values ops p v of
               Inl e \<Rightarrow> Inl e
             | Inr p' \<Rightarrow> update_params ops self_attr (dict_set params k p') param_values)
          else
            (case self_attr k of
               Some a \<Rightarrow>
                 (case set_values ops p a of
                    Inl e \<Rightarrow> Inl e
                  | Inr p' \<Rightarrow> update_params ops self_attr (dict_set params k p') param_values)
             | None \<Rightarrow> update_params ops self_attr params param_values))"

text \<open>\<open>[ p.format(**glob_pattern_parts) for p in patterns ]\<close>.\<close>

fun format_patterns ::
  "('f, 'v) os_env \<Rightarrow> string list \<Rightarrow> (string, string) dict \<Rightarrow> exn + string list" where
  "format_patterns env [] parts = Inr []"
| "format_patterns env (p # patterns) parts =
     (case str_format env p parts of
        Inl e \<Rightarrow> Inl e
      | Inr s \<Rightarrow> (case format_patterns env patterns parts of
                   Inl e \<Rightarrow> Inl e
                 | Inr ss \<Rightarrow> Inr (s # ss)))"

text \<open>
  The loop over the filters for one matched path: every filter parses its group into
  \<open>values[k]\<close> and \<open>good\<close> collects the answers of \<open>match\<close>; the loop has no early exit.
\<close>

fun match_params ::
  "('f, 'v) filter_ops \<Rightarrow> rmatch \<Rightarrow> (string, 'f) dict \<Rightarrow> (string, ('f, 'v) pyobj) dict \<Rightarrow> bool
     \<Rightarrow> exn + ((string, ('f, 'v) pyobj) dict \<times> bool)" where
  "match_params ops m [] values good = Inr (values, good)"
| "match_params ops m ((k, param) # params) values good =
     (case parse_group ops m k param of
        Inl e \<Rightarrow> Inl e
      | Inr v \<Rightarrow> match_params ops m params (dict_set values k v) (good \<and> match ops param v))"

text \<open>\<open>for k, v in values.items(): ids[k].append(v)\<close>.\<close>

fun append_values ::
  "(string, 'a list) dict \<Rightarrow> (string, 'a) dict \<Rightarrow> (string, 'a list) dict" where
  "append_values ids [] = ids"
| "append_values ids ((k, v) # values) = append_values (dict_append ids k v) values"

text \<open>The loop over the candidate paths.\<close>

fun match_paths ::
  "('f, 'v) filter_ops \<Rightarrow> (string, 'f) dict \<Rightarrow> regex \<Rightarrow> string list
     \<Rightarrow> (string, ('f, 'v) pyobj) dict \<Rightarrow> string list \<Rightarrow> (string, ('f, 'v) pyobj list) dict
     \<Rightarrow> exn + (string list \<times> (string, ('f, 'v) pyobj list) dict)" where
  "match_paths ops params regex [] values filenames ids = Inr (filenames, ids)"
| "match_paths ops params regex (path # paths) values filenames ids =
     (case regex path of
        None \<Rightarrow> match_paths ops params regex paths values filenames ids
      | Some m \<Rightarrow>
          (case match_params ops m params values True of
             Inl e \<Rightarrow> Inl e
           | Inr (values', good) \<Rightarrow>
               if good
               then match_paths ops params regex paths values' (filenames @ [path])
                      (append_values ids values')
               else match_paths ops params regex paths values' filenames ids))"

text \<open>
  The glob expression of a call: the filters after the query update, their glob
  fragments substituted into the pattern parts, the parts joined.
\<close>

definition glob_pattern_of ::
  "('f, 'v) filter_ops \<Rightarrow> ('f, 'v) os_env \<Rightarrow> string list \<Rightarrow> (string, 'f) dict \<Rightarrow> exn + string" where
  "glob_pattern_of ops env patterns params =
     (case format_patterns env patterns (map (\<lambda>(k, p). (k, get_glob_pattern ops p)) params) of
        Inl e \<Rightarrow> Inl e
      | Inr parts \<Rightarrow> os_path_join parts)"

text \<open>\<open>__find_files_and_match_params(patterns, params, param_values, regex)\<close>.\<close>

definition find_files_and_match_params ::
  "('f, 'v) filter_ops \<Rightarrow> ('f, 'v) os_env \<Rightarrow> (string \<rightharpoonup> ('f, 'v) pyobj) \<Rightarrow> string list
     \<Rightarrow> (string, 'f) dict \<Rightarrow> (string, ('f, 'v) pyobj) dict \<Rightarrow> regex
     \<Rightarrow> (string list \<times> (string, ('f, 'v) pyobj list) dict) io" where
  "find_files_and_match_params ops env self_attr patterns params param_values regex =
     (case update_params ops self_attr params param_values of
        Inl e \<Rightarrow> ([], Inl e)
      | Inr params' \<Rightarrow>
          (case glob_pattern_of ops env patterns params' of
             Inl e \<Rightarrow> ([], Inl e)
           | Inr glob_pattern \<Rightarrow>
               ([Glob glob_pattern],
                match_paths ops params' regex (glob env glob_pattern)
                  (map (\<lambda>(k, p). (k, PyNone)) params') []
                  (map (\<lambda>(k, p). (k, [])) params'))))"

section \<open>Discovery as a function on lists\<close>

text \<open>
  What the loops of discovery compute, written as functions on lists; the lemmas below
  show that the loops compute them. \<open>all_match\<close>: every filter accepts the value parsed
  for it (\<open>vals\<close> lists the parsed values in the order of the filters).
\<close>

definition all_match :: "('f, 'v) filter_ops \<Rightarrow> (string, 'f) dict \<Rightarrow> (string, ('f, 'v) pyobj) dict \<Rightarrow> bool" where
  "all_match ops params vals = list_all (\<lambda>((k, p), (k', v)). match ops p v) (zip params vals)"

text \<open>Appending to every per-name list the value of the same position.\<close>

definition zip_append :: "(string, 'a list) dict \<Rightarrow> (string, 'a) dict \<Rightarrow> (string, 'a list) dict" where
  "zip_append ids vals = map (\<lambda>((k, l), (k', v)). (k, l @ [v])) (zip ids vals)"

text \<open>
  The candidates that are kept, each with its parsed values; the first parse failure, in
  the order of the candidates, is the result.
\<close>

fun kept ::
  "('f, 'v) filter_ops \<Rightarrow> (string, 'f) dict \<Rightarrow> regex \<Rightarrow> string list
     \<Rightarrow> exn + (string \<times> (string, ('f, 'v) pyobj) dict) list" where
  "kept ops params regex [] = Inr []"
| "kept ops params regex (path # paths) =
     (case regex path of
        None \<Rightarrow> kept ops params regex paths
      | Some m \<Rightarrow>
          (case dict_comprehension (parse_group ops m) params of
             Inl e \<Rightarrow> Inl e
           | Inr vals \<Rightarrow>
               (case kept ops params regex paths of
                  Inl e \<Rightarrow> Inl e
                | Inr r \<Rightarrow> Inr (if all_match ops params vals then (path, vals) # r else r))))"

text \<open>A candidate is accepted: the pattern matches, every group parses, every filter matches.\<close>

definition accepts :: "('f, 'v) filter_ops \<Rightarrow> (string, 'f) dict \<Rightarrow> regex \<Rightarrow> string \<Rightarrow> bool" where
  "accepts ops params regex path =
     (case regex path of
        None \<Rightarrow> False
      | Some m \<Rightarrow>
          (case dict_comprehension (parse_group ops m) params of
             Inl e \<Rightarrow> False
           | Inr vals \<Rightarrow> all_match ops params vals))"

section \<open>The filters of the specification\<close>

text \<open>
  Modelled from the spec: the filter classes are not among the sources at hand. The
  spec (4.1) gives a filter a query state, exactly one of unconstrained, single value,
  set of values and inclusive range, and has \<open>matches(value)\<close> answer true for the
  unconstrained query, equality for a single value, membership for a set, and
  \<open>min <= value <= max\<close> for a range.
\<close>

datatype 'v query = Unconstrained | Single 'v | SetOf "'v list" | Range 'v 'v

definition matches :: "('v::linorder) query \<Rightarrow> 'v \<Rightarrow> bool" where
  "matches q v =
     (case q of
        Unconstrained \<Rightarrow> True
      | Single a \<Rightarrow> v = a
      | SetOf xs \<Rightarrow> v \<in> set xs
      | Range lo hi \<Rightarrow> lo \<le> v \<and> v \<le> hi)"

text \<open>
  Modelled from the spec: a filter of the integer or of the hexadecimal variant, with
  the width of its zero-padded print format and its query. \<open>set_query\<close> stores the
  query mode of a value, a list of values, a pair \<open>(min, max)\<close> or \<open>None\<close> (and takes
  over the query of a default filter); anything else is an invalid query.
\<close>

datatype filter_kind = IntKind | HexKind

record spec_filter =
  sf_kind :: filter_kind
  sf_width :: nat
  sf_query :: "int query"

fun scalars :: "('f, 'v) pyobj list \<Rightarrow> 'v list option" where
  "scalars [] = Some []"
| "scalars (x # xs) =
     (case x of
        PyVal v \<Rightarrow> (case scalars xs of None \<Rightarrow> None | Some vs \<Rightarrow> Some (v # vs))
      | _ \<Rightarrow> None)"

definition set_query :: "spec_filter \<Rightarrow> (spec_filter, int) pyobj \<Rightarrow> exn + spec_filter" where
  "set_query f obj =
     (case obj of
        PyNone \<Rightarrow> Inr (f\<lparr>sf_query := Unconstrained\<rparr>)
      | PyVal v \<Rightarrow> Inr (f\<lparr>sf_query := Single v\<rparr>)
      | PyList xs \<Rightarrow>
          (case scalars xs of
             Some vs \<Rightarrow> Inr (f\<lparr>sf_query := SetOf vs\<rparr>)
           | None \<Rightarrow> Inl (Exn ValueError ''invalid query''))
      | PyTuple xs \<Rightarrow>
          (case scalars xs of
             Some [lo, hi] \<Rightarrow> Inr (f\<lparr>sf_query := Range lo hi\<rparr>)
           | _ \<Rightarrow> Inl (Exn ValueError ''invalid query''))
      | PyFilter g \<Rightarrow> Inr (f\<lparr>sf_query := sf_query g\<rparr>)
      | PyStr s \<Rightarrow> Inl (Exn ValueError ''invalid query''))"

text \<open>
  Modelled from the spec: \<open>format_value\<close> renders a value with the print format
  (\<open>'{:0Wd}'\<close> for the integer variant, \<open>'{:0Wx}'\<close> for the hexadecimal one);
  \<open>glob_fragment\<close> is the formatted value for a single-value query and otherwise a
  wildcard of the variant's character class, as wide as the format; \<open>parse_value\<close> is
  the base-10 parse for the integer variant and \<open>HexIDFilter._parse_value\<close> for the
  hexadecimal one.
\<close>

function digits10 :: "nat \<Rightarrow> nat list" where
  "digits10 n = (if n < 10 then [n] else digits10 (n div 10) @ [n mod 10])"
  by pat_completeness auto
termination
  by (relation "measure id") auto

definition format_0d :: "nat \<Rightarrow> int \<Rightarrow> string" where
  "format_0d w v =
     (if v < 0
      then CHR ''-'' # replicate (w - 1 - length (digits10 (nat (- v)))) CHR ''0''
             @ map hex_char (digits10 (nat (- v)))
      else replicate (w - length (digits10 (nat v))) CHR ''0'' @ map hex_char (digits10 (nat v)))"

definition format_value :: "spec_filter \<Rightarrow> int \<Rightarrow> string" where
  "format_value f v =
     (case sf_kind f of HexKind \<Rightarrow> format_0x (sf_width f) v | IntKind \<Rightarrow> format_0d (sf_width f) v)"

definition glob_fragment :: "spec_filter \<Rightarrow> string" where
  "glob_fragment f =
     (case sf_query f of
        Single v \<Rightarrow> format_value f v
      | _ \<Rightarrow> concat (replicate (sf_width f)
                (case sf_kind f of HexKind \<Rightarrow> ''[0-9a-f]'' | IntKind \<Rightarrow> ''[0-9]'')))"

definition spec_parse_value :: "spec_filter \<Rightarrow> string option \<Rightarrow> exn + (spec_filter, int) pyobj" where
  "spec_parse_value f raw =
     (case (case sf_kind f of
              HexKind \<Rightarrow> HexIDFilter_parse_value raw
            | IntKind \<Rightarrow>
                (case raw of
                   None \<Rightarrow> Inl (Exn TypeError ''int() argument must be a string'')
                 | Some s \<Rightarrow> py_int 10 s)) of
        Inl e \<Rightarrow> Inl e
      | Inr v \<Rightarrow> Inr (PyVal v))"

definition spec_match :: "spec_filter \<Rightarrow> (spec_filter, int) pyobj \<Rightarrow> bool" where
  "spec_match f obj = (case obj of PyVal v \<Rightarrow> matches (sf_query f) v | _ \<Rightarrow> False)"

definition spec_filter_ops :: "(spec_filter, int) filter_ops" where
  "spec_filter_ops =
     \<lparr>set_values = set_query, get_glob_pattern = glob_fragment,
      parse_value = spec_parse_value, match = spec_match\<rparr>"

text \<open>
  An example for the closed instances below. \<open>re.search\<close> with the pattern
  \<open>(?:^|/)v(?P<visit>[^/]*)$\<close> on a path without line breaks: the file name, which is
  what follows the last \<open>/\<close> of the path (the whole path when it has none), starts with
  \<open>v\<close>, and the group \<open>visit\<close> is the rest of the file name. The example environment is a
  file system whose directory \<open>/data\<close> holds files of the given names (none of them
  hidden): the glob expression \<open>/data/*\<close> lists them with their directory, in the given
  order, and no other expression is asked for in the examples. Absolute paths are left
  as they are, and so are path templates.
\<close>

definition example_regex :: regex where
  "example_regex path =
     (case rev (takeWhile (\<lambda>c. c \<noteq> CHR ''/'') (rev path)) of
        [] \<Rightarrow> None
      | c # r \<Rightarrow> if c = CHR ''v'' then Some [''visit'' \<mapsto> Some r] else None)"

definition example_env :: "string list \<Rightarrow> (spec_filter, int) os_env" where
  "example_env names =
     \<lparr>glob = (\<lambda>pattern. if pattern = ''/data/*'' then map (\<lambda>name. ''/data/'' @ name) names else []),
      abspath = (\<lambda>path. path),
      str_format = (\<lambda>template parts. Inr template),
      obj_format = (\<lambda>template parts. Inr template)\<rparr>"

definition visit_filter :: spec_filter where
  "visit_filter = \<lparr>sf_kind = IntKind, sf_width = 6, sf_query = Unconstrained\<rparr>"

section \<open>The connector\<close>

text \<open>
  The state of a \<open>FileSystemConnector\<close>: the private fields \<open>__datadir\<close> and
  \<open>__rerundir\<close> (\<open>None\<close> when neither the argument nor the environment gives them) and
  the seven default filters.
\<close>

record 'f connector =
  datadir :: "string option"
  rerundir :: "string option"
  pfsDesignId :: 'f
  catId :: 'f
  tract :: 'f
  patch :: 'f
  objId :: 'f
  visit :: 'f
  date :: 'f

text \<open>\<open>__get_envvar(key)\<close>; the environment is a table from names to values.\<close>

definition get_envvar :: "(string \<rightharpoonup> string) \<Rightarrow> string \<Rightarrow> string option" where
  "get_envvar environ key = (case environ key of Some v \<Rightarrow> Some v | None \<Rightarrow> None)"

text \<open>
  \<open>__init__(datadir=None, rerundir=None, orig=None)\<close>; \<open>orig\<close> is \<open>None\<close> or a connector
  to copy.
\<close>

definition init ::
  "'f filter_classes \<Rightarrow> (string \<rightharpoonup> string) \<Rightarrow> string option \<Rightarrow> string option
     \<Rightarrow> 'f connector option \<Rightarrow> 'f connector" where
  "init cls environ datadir_arg rerundir_arg orig =
     (case orig of
        None \<Rightarrow>
          \<lparr>datadir = (case datadir_arg of Some d \<Rightarrow> Some d | None \<Rightarrow> get_envvar environ ''GAPIPE_DATADIR''),
           rerundir = (case rerundir_arg of Some d \<Rightarrow> Some d | None \<Rightarrow> get_envvar environ ''GAPIPE_RERUNDIR''),
           pfsDesignId = HexFilter cls (Some ''pfsDesignId'') (Some ''{:016x}''),
           catId = IntFilter cls (Some ''catid'') (Some ''{:05d}''),
           tract = IntFilter cls (Some ''tract'') (Some ''{:05d}''),
           patch = StringFilter cls (Some ''patch'') None,
           objId = HexFilter cls (Some ''objid'') (Some ''{:016x}''),
           visit = IntFilter cls (Some ''visit'') (Some ''{:06d}''),
           date = DateFilter cls (Some ''date'') (Some ''{:%Y-%m-%d}'')\<rparr>
      | Some other \<Rightarrow>
          other\<lparr>datadir := (case datadir_arg of Some d \<Rightarrow> Some d | None \<Rightarrow> datadir other),
                rerundir := (case rerundir_arg of Some d \<Rightarrow> Some d | None \<Rightarrow> rerundir other)\<rparr>)"

text \<open>
  \<open>hasattr(self, k)\<close> and \<open>getattr(self, k)\<close> on the data attributes of a connector, which
  are its properties: the class declares a property for the two directories and for six
  of the filters, and none for \<open>date\<close>. The other attributes of an instance are its
  methods and the private fields under their mangled names; none of them bears the name
  of an identity field.
\<close>

definition getattr_connector :: "'f connector \<Rightarrow> string \<rightharpoonup> ('f, 'v) pyobj" where
  "getattr_connector self k =
     (if k = ''datadir'' then Some (case datadir self of None \<Rightarrow> PyNone | Some d \<Rightarrow> PyStr d)
      else if k = ''rerundir'' then Some (case rerundir self of None \<Rightarrow> PyNone | Some d \<Rightarrow> PyStr d)
      else if k = ''pfsDesignId'' then Some (PyFilter (pfsDesignId self))
      else if k = ''catId'' then Some (PyFilter (catId self))
      else if k = ''tract'' then Some (PyFilter (tract self))
      else if k = ''patch'' then Some (PyFilter (patch self))
      else if k = ''objId'' then Some (PyFilter (objId self))
      else if k = ''visit'' then Some (PyFilter (visit self))
      else None)"

section \<open>Paths and directories\<close>

text \<open>\<open>s.split(sep)\<close> for a separator of one character.\<close>

fun split_sep :: "char \<Rightarrow> string \<Rightarrow> string list" where
  "split_sep c [] = [[]]"
| "split_sep c (x # xs) =
     (if x = c then [] # split_sep c xs
      else (case split_sep c xs of
              [] \<Rightarrow> [[x]]
            | w # ws \<Rightarrow> (x # w) # ws))"

text \<open>
  \<open>xs.index(x)\<close>: \<open>ValueError\<close> when \<open>x\<close> is not in the list (Python's message names the
  value).
\<close>

fun list_index :: "'a list \<Rightarrow> 'a \<Rightarrow> exn + nat" where
  "list_index [] x = Inl (Exn ValueError ''x is not in list'')"
| "list_index (y # ys) x =
     (if y = x then Inr 0
      else (case list_index ys x of Inl e \<Rightarrow> Inl e | Inr i \<Rightarrow> Inr (Suc i)))"

text \<open>\<open>os.path.split(p)\<close> of \<open>posixpath\<close>.\<close>

definition os_path_split :: "string \<Rightarrow> string \<times> string" where
  "os_path_split p =
     (let tail = rev (takeWhile (\<lambda>c. c \<noteq> CHR ''/'') (rev p));
          head = take (length p - length tail) p
      in (if filter (\<lambda>c. c \<noteq> CHR ''/'') head \<noteq> []
          then rev (dropWhile (\<lambda>c. c = CHR ''/'') (rev head))
          else head,
          tail))"

text \<open>\<open>os.path.abspath(path)\<close> on an argument that may be \<open>None\<close>, which is not a path.\<close>

definition abspath_arg :: "('f, 'v) os_env \<Rightarrow> string option \<Rightarrow> exn + string" where
  "abspath_arg env path =
     (case path of
        None \<Rightarrow> Inl (Exn TypeError ''expected str, bytes or os.PathLike object, not NoneType'')
      | Some p \<Rightarrow> Inr (abspath env p))"

text \<open>
  \<open>os.path.join(a, *p)\<close> on arguments that may be \<open>None\<close>: a \<open>TypeError\<close>, of
  \<open>os.fspath\<close> for the first argument and of the check of the argument types for the
  others (Python puts the name of the type in quotation marks).
\<close>

definition os_path_join_args :: "string option list \<Rightarrow> exn + string" where
  "os_path_join_args parts =
     (case parts of
        [] \<Rightarrow> os_path_join []
      | None # p \<Rightarrow> Inl (Exn TypeError ''expected str, bytes or os.PathLike object, not NoneType'')
      | Some a # p \<Rightarrow>
          (case those p of
             None \<Rightarrow> Inl (Exn TypeError ''join() argument must be str, bytes, or os.PathLike object, not NoneType'')
           | Some ps \<Rightarrow> os_path_join (a # ps)))"

text \<open>
  \<open>get_datadir(reference_path=None, required=False)\<close>. The first step leaves \<open>dirs\<close> and
  \<open>rerun_index\<close>; without a reference path \<open>dirs\<close> is not bound and is not used.
\<close>

definition get_datadir ::
  "('f, 'v) os_env \<Rightarrow> 'f connector \<Rightarrow> string option \<Rightarrow> bool \<Rightarrow> string io" where
  "get_datadir env self reference_path required =
     bind_io
       (case reference_path of
          None \<Rightarrow> pure_io (Inr ([], - 1))
        | Some path \<Rightarrow>
            (let dirs = split_sep CHR ''/'' path in
             if ''rerun'' \<in> set dirs
             then pure_io (map_sum id (\<lambda>i. (dirs, int i)) (list_index dirs ''rerun''))
             else if ''pfsConfig'' \<in> set dirs
             then pure_io (map_sum id (\<lambda>i. (dirs, int i)) (list_index dirs ''pfsConfig''))
             else if ''pfsDesign'' \<in> set dirs
             then pure_io (map_sum id (\<lambda>i. (dirs, int i)) (list_index dirs ''pfsDesign''))
             else bind_io
                    (throw_or_warn ''Data directory cannot be inferred from reference path.''
                       required ValueError)
                    (\<lambda>_. pure_io (Inr (dirs, - 1)))))
       (\<lambda>(dirs, rerun_index).
          if rerun_index \<noteq> - 1
          then pure_io (Inr (abspath env (str_join ''/'' (take (nat rerun_index) dirs))))
          else pure_io (abspath_arg env (datadir self)))"

text \<open>\<open>get_rerundir(reference_path=None, required=False)\<close>.\<close>

definition get_rerundir ::
  "('f, 'v) os_env \<Rightarrow> 'f connector \<Rightarrow> string option \<Rightarrow> bool \<Rightarrow> string io" where
  "get_rerundir env self reference_path required =
     bind_io
       (case reference_path of
          None \<Rightarrow> pure_io (Inr ([], - 1))
        | Some path \<Rightarrow>
            (let dirs = split_sep CHR ''/'' path in
             bind_io
               (pure_io
                  (case find (\<lambda>product. product \<in> set dirs)
                          [''pfsArm'', ''pfsMerged'', ''pfsSingle'', ''pfsObject'', ''pfsGAObject''] of
                     None \<Rightarrow> Inr (- 1)
                   | Some product \<Rightarrow> map_sum id int (list_index dirs product)))
               (\<lambda>rerun_index.
                  if rerun_index = - 1
                  then bind_io
                         (throw_or_warn ''Rerun directory cannot be inferred from reference path.''
                            required ValueError)
                         (\<lambda>_. pure_io (Inr (dirs, rerun_index)))
                  else pure_io (Inr (dirs, rerun_index)))))
       (\<lambda>(dirs, rerun_index).
          if rerun_index \<noteq> - 1
          then pure_io (Inr (abspath env (str_join ''/'' (take (nat rerun_index) dirs))))
          else pure_io
                 (case os_path_join_args [datadir self, rerundir self] of
                    Inl e \<Rightarrow> Inl e
                  | Inr p \<Rightarrow> Inr (abspath env p)))"

section \<open>The data products\<close>

text \<open>
  The class \<open>Constants\<close> and the readers of \<open>pfs.datamodel\<close> are imported by the
  connector and are not among the sources at hand: the directory and file name
  templates, the regular expressions and the three \<open>read\<close> functions are parameters.
\<close>

record constants =
  PFSDESIGN_DIR_GLOB :: string
  PFSDESIGN_DIR_FORMAT :: string
  PFSDESIGN_FILENAME_GLOB :: string
  PFSDESIGN_FILENAME_REGEX :: regex
  PFSCONFIG_DIR_GLOB :: string
  PFSCONFIG_DIR_FORMAT :: string
  PFSCONFIG_FILENAME_GLOB :: string
  PFSCONFIG_FILENAME_REGEX :: regex
  PFSCONFIG_PATH_REGEX :: regex
  PFSSINGLE_DIR_GLOB :: string
  PFSSINGLE_DIR_FORMAT :: string
  PFSSINGLE_FILENAME_GLOB :: string
  PFSSINGLE_FILENAME_REGEX :: regex




subsection \<open>PfsDesign\<close>

definition get_pfsDesign_identity_fields :: "'f filter_classes \<Rightarrow> (string, 'f) dict" where
  "get_pfsDesign_identity_fields cls =
     [(''pfsDesignId'', HexFilter cls (Some ''pfsDesignId'') (Some ''{:016x}''))]"

definition parse_pfsDesign ::
  "('f, 'v) filter_ops \<Rightarrow> 'f filter_classes \<Rightarrow> constants \<Rightarrow> string
     \<Rightarrow> (string, ('f, 'v) pyobj) dict option io" where
  "parse_pfsDesign ops cls consts path =
     (case os_path_split path of
        (dir, basename) \<Rightarrow>
          parse_filename_params ops basename (get_pfsDesign_identity_fields cls)
            (PFSDESIGN_FILENAME_REGEX consts) True)"

definition find_pfsDesign ::
  "('f, 'v) filter_ops \<Rightarrow> 'f filter_classes \<Rightarrow> ('f, 'v) os_env \<Rightarrow> constants \<Rightarrow> 'f connector
     \<Rightarrow> string option \<Rightarrow> (string, ('f, 'v) pyobj) dict
     \<Rightarrow> (string list \<times> (string, ('f, 'v) pyobj list) dict) io" where
  "find_pfsDesign ops cls env consts self reference_path kwargs =
     bind_io (get_datadir env self reference_path False)
       (\<lambda>root.
          find_files_and_match_params ops env (getattr_connector self)
            [root, PFSDESIGN_DIR_GLOB consts, PFSDESIGN_FILENAME_GLOB consts]
            (get_pfsDesign_identity_fields cls) kwargs (PFSDESIGN_FILENAME_REGEX consts))"

definition locate_pfsDesign ::
  "('f, 'v) filter_ops \<Rightarrow> 'f filter_classes \<Rightarrow> ('f, 'v) os_env \<Rightarrow> constants \<Rightarrow> 'f connector
     \<Rightarrow> string option \<Rightarrow> (string, ('f, 'v) pyobj) dict
     \<Rightarrow> (string \<times> (string, ('f, 'v) pyobj) dict) io" where
  "locate_pfsDesign ops cls env consts self reference_path kwargs =
     bind_io (find_pfsDesign ops cls env consts self reference_path kwargs)
       (\<lambda>(files, ids). pure_io (get_single_file files ids))"


subsection \<open>PfsConfig\<close>






subsection \<open>PfsSingle\<close>

definition get_identity_fields_pfsSingle :: "'f filter_classes \<Rightarrow> (string, 'f) dict" where
  "get_identity_fields_pfsSingle cls =
     [(''catId'', IntFilter cls (Some ''catId'') (Some ''{:05d}'')),
      (''tract'', IntFilter cls (Some ''tract'') (Some ''{:05d}'')),
      (''patch'', StringFilter cls (Some ''patch'') None),
      (''objId'', HexFilter cls (Some ''objId'') (Some ''{:016x}'')),
      (''visit'', IntFilter cls (Some ''visit'') (Some ''{:06d}''))]"

definition parse_pfsSingle ::
  "('f, 'v) filter_ops \<Rightarrow> 'f filter_classes \<Rightarrow> constants \<Rightarrow> string
     \<Rightarrow> (string, ('f, 'v) pyobj) dict option io" where
  "parse_pfsSingle ops cls consts path =
     (case os_path_split path of
        (dir, basename) \<Rightarrow>
          parse_filename_params ops basename (get_identity_fields_pfsSingle cls)
            (PFSSINGLE_FILENAME_REGEX consts) True)"

definition find_pfsSingle ::
  "('f, 'v) filter_ops \<Rightarrow> 'f filter_classes \<Rightarrow> ('f, 'v) os_env \<Rightarrow> constants \<Rightarrow> 'f connector
     \<Rightarrow> string option \<Rightarrow> (string, ('f, 'v) pyobj) dict
     \<Rightarrow> (string list \<times> (string, ('f, 'v) pyobj list) dict) io" where
  "find_pfsSingle ops cls env consts self reference_path kwargs =
     bind_io (get_datadir env self reference_path False)
       (\<lambda>root.
     bind_io (get_rerundir env self reference_path False)
       (\<lambda>rerun.
          find_files_and_match_params ops env (getattr_connector self)
            [root, rerun, PFSSINGLE_DIR_GLOB consts, PFSSINGLE_FILENAME_GLOB consts]
            (get_identity_fields_pfsSingle cls) kwargs (PFSSINGLE_FILENAME_REGEX consts)))"

definition locate_pfsSingle ::
  "('f, 'v) filter_ops \<Rightarrow> 'f filter_classes \<Rightarrow> ('f, 'v) os_env \<Rightarrow> constants \<Rightarrow> 'f connector
     \<Rightarrow> string option \<Rightarrow> (string, ('f, 'v) pyobj) dict
     \<Rightarrow> (string \<times> (string, ('f, 'v) pyobj) dict) io" where
  "locate_pfsSingle ops cls env consts self reference_path kwargs =
     bind_io (find_pfsSingle ops cls env consts self reference_path kwargs)
       (\<lambda>(files, ids). pure_io (get_single_file files ids))"


section \<open>An example connector\<close>

text \<open>
  For the closed instances below: filter classes that construct unconstrained filters of
  the specification, directory and file name templates without placeholders, patterns
  that are the example pattern, readers that return the directory they are asked to read
  from, a connector constructed with the data directory \<open>/data\<close> and the rerun directory
  \<open>rerun\<close>, and that connector with the query \<open>visit = 7\<close> set on its default filter for
  the visit.
\<close>

definition example_classes :: "spec_filter filter_classes" where
  "example_classes =
     \<lparr>IntFilter = (\<lambda>name format. \<lparr>sf_kind = IntKind, sf_width = 6, sf_query = Unconstrained\<rparr>),
      HexFilter = (\<lambda>name format. \<lparr>sf_kind = HexKind, sf_width = 16, sf_query = Unconstrained\<rparr>),
      DateFilter = (\<lambda>name format. \<lparr>sf_kind = IntKind, sf_width = 8, sf_query = Unconstrained\<rparr>),
      StringFilter = (\<lambda>name format. \<lparr>sf_kind = IntKind, sf_width = 1, sf_query = Unconstrained\<rparr>)\<rparr>"



definition example_connector :: "spec_filter connector" where
  "example_connector = init example_classes Map.empty (Some ''/data'') (Some ''rerun'') None"

definition example_defaults :: "spec_filter connector" where
  "example_defaults =
     example_connector\<lparr>visit := \<lparr>sf_kind = IntKind, sf_width = 6, sf_query = Single 7\<rparr>\<rparr>"

section \<open>Helper lemmas\<close>

lemma dict_comprehension_singletons:
  "dict_comprehension (\<lambda>k v. first_item v) (map (\<lambda>(k, x). (k, [x])) ident) = Inr ident"
  by (induction ident) (auto simp: first_item_def)

lemma dict_set_absent: "k \<notin> fst ` set d \<Longrightarrow> dict_set d k x = d"
  by (induction d) (auto simp: dict_set_def)

lemma dict_set_here:
  "k \<notin> fst ` set d1 \<Longrightarrow> k \<notin> fst ` set d2 \<Longrightarrow> dict_set (d1 @ (k, y) # d2) k x = d1 @ (k, x) # d2"
  using dict_set_absent[of k d1 x] dict_set_absent[of k d2 x]
  by (simp add: dict_set_def)

lemma dict_append_absent: "k \<notin> fst ` set d \<Longrightarrow> dict_append d k x = d"
  by (induction d) (auto simp: dict_append_def)

lemma dict_append_here:
  "k \<notin> fst ` set d1 \<Longrightarrow> k \<notin> fst ` set d2 \<Longrightarrow>
   dict_append (d1 @ (k, l) # d2) k x = d1 @ (k, l @ [x]) # d2"
  using dict_append_absent[of k d1 x] dict_append_absent[of k d2 x]
  by (simp add: dict_append_def)

lemma dict_comprehension_keys:
  "dict_comprehension f d = Inr r \<Longrightarrow> map fst r = map fst d"
  by (induction d arbitrary: r) (auto split: sum.splits)

lemma match_params_eq:
  "distinct (map fst ps) \<Longrightarrow> fst ` set vs1 \<inter> fst ` set ps = {} \<Longrightarrow> map fst vs2 = map fst ps \<Longrightarrow>
   match_params ops m ps (vs1 @ vs2) good =
     (case dict_comprehension (parse_group ops m) ps of
        Inl e \<Rightarrow> Inl e
      | Inr vals \<Rightarrow> Inr (vs1 @ vals, good \<and> all_match ops ps vals))"
proof (induction ps arbitrary: vs1 vs2 good)
  case Nil
  then show ?case by (simp add: all_match_def)
next
  case (Cons kp ps)
  obtain k p where kp: "kp = (k, p)" by (cases kp)
  from Cons.prems(3) kp obtain old vs2' where vs2: "vs2 = (k, old) # vs2'" and keys: "map fst vs2' = map fst ps"
    by (cases vs2) auto
  have k1: "k \<notin> fst ` set vs1" using Cons.prems(2) kp by auto
  have k2: "k \<notin> fst ` set vs2'" using Cons.prems(1) kp keys by (metis distinct.simps(2) list.simps(9) fst_conv set_map)
  show ?case
  proof (cases "parse_group ops m k p")
    case (Inl e)
    then show ?thesis by (simp add: kp)
  next
    case (Inr v)
    have step: "dict_set (vs1 @ vs2) k v = (vs1 @ [(k, v)]) @ vs2'"
      using dict_set_here[OF k1 k2] vs2 by simp
    have d: "distinct (map fst ps)" using Cons.prems(1) by simp
    have i: "fst ` set (vs1 @ [(k, v)]) \<inter> fst ` set ps = {}"
      using Cons.prems(1,2) kp by auto
    show ?thesis
      using Cons.IH[OF d i keys, of "good \<and> match ops p v"] Inr step
      by (auto simp: kp all_match_def split: sum.splits)
  qed
qed

lemma append_values_eq:
  "distinct (map fst vals) \<Longrightarrow> fst ` set ids1 \<inter> fst ` set vals = {} \<Longrightarrow> map fst ids2 = map fst vals \<Longrightarrow>
   append_values (ids1 @ ids2) vals = ids1 @ zip_append ids2 vals"
proof (induction vals arbitrary: ids1 ids2)
  case Nil
  then show ?case by (simp add: zip_append_def)
next
  case (Cons kv vals)
  obtain k v where kv: "kv = (k, v)" by (cases kv)
  from Cons.prems(3) kv obtain l ids2' where ids2: "ids2 = (k, l) # ids2'" and keys: "map fst ids2' = map fst vals"
    by (cases ids2) auto
  have k1: "k \<notin> fst ` set ids1" using Cons.prems(2) kv by auto
  have k2: "k \<notin> fst ` set ids2'" using Cons.prems(1) kv keys by (metis distinct.simps(2) list.simps(9) fst_conv set_map)
  have step: "dict_append (ids1 @ ids2) k v = (ids1 @ [(k, l @ [v])]) @ ids2'"
    using dict_append_here[OF k1 k2] ids2 by simp
  have d: "distinct (map fst vals)" using Cons.prems(1) by simp
  have i: "fst ` set (ids1 @ [(k, l @ [v])]) \<inter> fst ` set vals = {}"
    using Cons.prems(1,2) kv by auto
  show ?case
    using Cons.IH[OF d i keys] step by (simp add: kv ids2 zip_append_def)
qed

lemma zip_append_keys: "map fst ids = map fst vals \<Longrightarrow> map fst (zip_append ids vals) = map fst ids"
  unfolding zip_append_def
  by (induction ids vals rule: list_induct2') auto

lemma kept_keys:
  "kept ops params regex paths = Inr r \<Longrightarrow> (path, vals) \<in> set r \<Longrightarrow> map fst vals = map fst params"
proof (induction paths arbitrary: r)
  case Nil
  then show ?case by simp
next
  case (Cons a paths)
  then show ?case
    by (auto split: option.splits sum.splits if_splits dest: dict_comprehension_keys)
qed

lemma match_paths_eq:
  "distinct (map fst params) \<Longrightarrow> map fst vals0 = map fst params \<Longrightarrow> map fst ids = map fst params \<Longrightarrow>
   match_paths ops params regex paths vals0 filenames ids =
     (case kept ops params regex paths of
        Inl e \<Rightarrow> Inl e
      | Inr r \<Rightarrow> Inr (filenames @ map fst r, foldl zip_append ids (map snd r)))"
proof (induction paths arbitrary: vals0 filenames ids)
  case Nil
  then show ?case by simp
next
  case (Cons path paths)
  show ?case
  proof (cases "regex path")
    case None
    then show ?thesis using Cons.IH[OF Cons.prems] by simp
  next
    case (Some m)
    have mp: "match_params ops m params vals0 True =
       (case dict_comprehension (parse_group ops m) params of
          Inl e \<Rightarrow> Inl e
        | Inr vals \<Rightarrow> Inr (vals, all_match ops params vals))"
      using match_params_eq[OF Cons.prems(1), of "[]" vals0 ops m True] Cons.prems(2)
      by (simp split: sum.splits)
    show ?thesis
    proof (cases "dict_comprehension (parse_group ops m) params")
      case (Inl e)
      then show ?thesis using Some mp by simp
    next
      case (Inr vals)
      have kv: "map fst vals = map fst params" using Inr by (rule dict_comprehension_keys)
      have av: "append_values ids vals = zip_append ids vals"
        using append_values_eq[of vals "[]" ids] Cons.prems(1,3) kv by simp
      have ki: "map fst (zip_append ids vals) = map fst params"
        using zip_append_keys[of ids vals] Cons.prems(3) kv by simp
      show ?thesis
      proof (cases "all_match ops params vals")
        case True
        show ?thesis
          using Cons.IH[OF Cons.prems(1) kv ki, of "filenames @ [path]"] Some mp Inr True av
          by (simp split: sum.splits)
      next
        case False
        show ?thesis
          using Cons.IH[OF Cons.prems(1) kv Cons.prems(3), of filenames] Some mp Inr False
          by (simp split: sum.splits)
      qed
    qed
  qed
qed

lemma dict_comprehension_nth:
  "dict_comprehension f d = Inr r \<Longrightarrow> j < length d \<Longrightarrow> f (fst (d ! j)) (snd (d ! j)) = Inr (snd (r ! j))"
proof (induction d arbitrary: r j)
  case Nil
  then show ?case by simp
next
  case (Cons a d)
  then show ?case
    by (cases a; cases j) (auto split: sum.splits)
qed

lemma dict_comprehension_all:
  "(\<exists>vals. dict_comprehension f d = Inr vals \<and> list_all (\<lambda>((k, p), (k', v)). P p v) (zip d vals))
   \<longleftrightarrow> (\<forall>(k, p) \<in> set d. \<exists>v. f k p = Inr v \<and> P p v)"
proof (induction d)
  case Nil
  then show ?case by simp
next
  case (Cons a d)
  obtain k p where a: "a = (k, p)" by (cases a)
  show ?case
  proof (cases "f k p")
    case (Inl e)
    then show ?thesis by (auto simp: a)
  next
    case (Inr v)
    show ?thesis
    proof (cases "dict_comprehension f d")
      case (Inl e)
      then show ?thesis using Cons.IH Inr by (auto simp: a)
    next
      case r: (Inr vals)
      then show ?thesis using Cons.IH Inr by (auto simp: a)
    qed
  qed
qed

lemma dict_comprehension_total:
  "(\<exists>vals. dict_comprehension f d = Inr vals) \<longleftrightarrow> (\<forall>(k, p) \<in> set d. \<exists>v. f k p = Inr v)"
proof (induction d)
  case Nil
  then show ?case by simp
next
  case (Cons a d)
  obtain k p where a: "a = (k, p)" by (cases a)
  show ?case
  proof (cases "f k p")
    case (Inl e)
    then show ?thesis by (auto simp: a)
  next
    case (Inr v)
    show ?thesis
    proof (cases "dict_comprehension f d")
      case (Inl e)
      then show ?thesis using Cons.IH Inr by (auto simp: a)
    next
      case r: (Inr vals)
      then show ?thesis using Cons.IH Inr by (auto simp: a)
    qed
  qed
qed

lemma kept_sound:
  "kept ops params regex paths = Inr r \<Longrightarrow> (path, vals) \<in> set r \<Longrightarrow>
   \<exists>m. regex path = Some m \<and> dict_comprehension (parse_group ops m) params = Inr vals
       \<and> all_match ops params vals"
proof (induction paths arbitrary: r)
  case Nil
  then show ?case by simp
next
  case (Cons a paths)
  then show ?case
    by (auto split: option.splits sum.splits if_splits)
qed

lemma accepts_iff:
  "accepts ops params regex path \<longleftrightarrow>
   (\<exists>m. regex path = Some m \<and> (\<forall>(k, p) \<in> set params. \<exists>v. parse_group ops m k p = Inr v \<and> match ops p v))"
proof (cases "regex path")
  case None
  then show ?thesis by (simp add: accepts_def)
next
  case (Some m)
  have "accepts ops params regex path \<longleftrightarrow>
     (\<exists>vals. dict_comprehension (parse_group ops m) params = Inr vals \<and> all_match ops params vals)"
    using Some by (auto simp: accepts_def split: sum.splits)
  then show ?thesis
    using dict_comprehension_all[of "parse_group ops m" params "match ops"] Some
    by (simp add: all_match_def)
qed

lemma kept_paths:
  "kept ops params regex paths = Inr r \<Longrightarrow> map fst r = filter (accepts ops params regex) paths"
proof (induction paths arbitrary: r)
  case Nil
  then show ?case by simp
next
  case (Cons a paths)
  show ?case
  proof (cases "regex a")
    case None
    then have "\<not> accepts ops params regex a" by (simp add: accepts_def)
    then show ?thesis using Cons None by simp
  next
    case (Some m)
    show ?thesis
    proof (cases "dict_comprehension (parse_group ops m) params")
      case (Inl e)
      then show ?thesis using Cons.prems Some by simp
    next
      case (Inr vals)
      then obtain r' where r': "kept ops params regex paths = Inr r'"
        and r: "r = (if all_match ops params vals then (a, vals) # r' else r')"
        using Cons.prems Some by (auto split: sum.splits)
      have acc: "accepts ops params regex a = all_match ops params vals"
        using Some Inr by (simp add: accepts_def)
      show ?thesis using Cons.IH[OF r'] r acc by simp
    qed
  qed
qed

lemma kept_total:
  "(\<exists>r. kept ops params regex paths = Inr r) \<longleftrightarrow>
   (\<forall>path \<in> set paths. \<forall>m. regex path = Some m \<longrightarrow>
      (\<forall>(k, p) \<in> set params. \<exists>v. parse_group ops m k p = Inr v))"
proof (induction paths)
  case Nil
  then show ?case by simp
next
  case (Cons a paths)
  show ?case
  proof (cases "regex a")
    case None
    then show ?thesis using Cons.IH by simp
  next
    case (Some m)
    show ?thesis
    proof (cases "dict_comprehension (parse_group ops m) params")
      case (Inl e)
      then have "\<not> (\<forall>(k, p) \<in> set params. \<exists>v. parse_group ops m k p = Inr v)"
        using dict_comprehension_total[of "parse_group ops m" params] by simp
      then show ?thesis using Some Inl by auto
    next
      case (Inr vals)
      then have hd_ok: "\<forall>(k, p) \<in> set params. \<exists>v. parse_group ops m k p = Inr v"
        using dict_comprehension_total[of "parse_group ops m" params] by blast
      have "(\<exists>r. kept ops params regex (a # paths) = Inr r) \<longleftrightarrow> (\<exists>r. kept ops params regex paths = Inr r)"
        using Some Inr by (cases "kept ops params regex paths") auto
      then show ?thesis using Cons.IH hd_ok Some by auto
    qed
  qed
qed

lemma zip_append_nth:
  "length vals = length ids \<Longrightarrow> j < length ids \<Longrightarrow>
   zip_append ids vals ! j = (fst (ids ! j), snd (ids ! j) @ [snd (vals ! j)])"
  by (simp add: zip_append_def split: prod.splits)

lemma length_zip_append: "length vals = length ids \<Longrightarrow> length (zip_append ids vals) = length ids"
  by (simp add: zip_append_def)

lemma foldl_zip_append:
  "\<forall>vals \<in> set valss. length vals = length ids \<Longrightarrow>
   length (foldl zip_append ids valss) = length ids \<and>
   (\<forall>j < length ids. foldl zip_append ids valss ! j
        = (fst (ids ! j), snd (ids ! j) @ map (\<lambda>vals. snd (vals ! j)) valss))"
proof (induction valss arbitrary: ids)
  case Nil
  then show ?case by simp
next
  case (Cons vals valss)
  have l: "length vals = length ids" using Cons.prems by simp
  have la: "length (zip_append ids vals) = length ids" using l by (rule length_zip_append)
  have "\<forall>vs \<in> set valss. length vs = length (zip_append ids vals)"
    using Cons.prems la by simp
  from Cons.IH[OF this] show ?case
    using la zip_append_nth[OF l] by simp
qed

lemma digits16_simps: "digits16 n = (if n < 16 then [n] else digits16 (n div 16) @ [n mod 16])"
  by (rule digits16.simps)

declare digits16.simps [simp del]

lemma digits16_lt: "d \<in> set (digits16 n) \<Longrightarrow> d < 16"
proof (induction n arbitrary: d rule: digits16.induct)
  case (1 n)
  show ?case
  proof (cases "n < 16")
    case True
    then show ?thesis using "1.prems" by (simp add: digits16_simps[of n])
  next
    case False
    then show ?thesis using "1.prems" "1.IH" by (auto simp: digits16_simps[of n])
  qed
qed

lemma digits16_nonempty: "digits16 n \<noteq> []"
  by (subst digits16_simps) simp

lemma digits16_value: "foldl (\<lambda>a d. 16 * a + d) 0 (digits16 n) = n"
proof (induction n rule: digits16.induct)
  case (1 n)
  show ?case
  proof (cases "n < 16")
    case True
    then show ?thesis by (simp add: digits16_simps[of n])
  next
    case False
    then show ?thesis using "1.IH" by (simp add: digits16_simps[of n])
  qed
qed

lemma lt16_cases:
  "(d::nat) < 16 \<Longrightarrow> d = 0 \<or> d = 1 \<or> d = 2 \<or> d = 3 \<or> d = 4 \<or> d = 5 \<or> d = 6 \<or> d = 7
     \<or> d = 8 \<or> d = 9 \<or> d = 10 \<or> d = 11 \<or> d = 12 \<or> d = 13 \<or> d = 14 \<or> d = 15"
  by arith

lemma digit_in_hex_char: "d < 16 \<Longrightarrow> digit_in 16 (hex_char d) = Some d"
  by (drule lt16_cases) (auto simp: digit_in_def digit_value_def hex_char_def)

lemma hex_char_plain:
  "d < 16 \<Longrightarrow> \<not> is_space (hex_char d) \<and> hex_char d \<noteq> CHR ''+'' \<and> hex_char d \<noteq> CHR ''-''
     \<and> hex_char d \<noteq> CHR ''x'' \<and> hex_char d \<noteq> CHR ''X''"
  by (drule lt16_cases) (auto simp: is_space_def hex_char_def)

lemma int_body_digits:
  "\<forall>d \<in> set ds. d < 16 \<Longrightarrow> int_body 16 acc (map hex_char ds) = Some (foldl (\<lambda>a d. 16 * a + d) acc ds)"
  by (induction ds arbitrary: acc) (auto simp: digit_in_hex_char)

lemma int_literal_digits:
  assumes "\<forall>d \<in> set (d0 # ds). d < 16"
  shows "int_literal 16 (map hex_char (d0 # ds)) = Some (foldl (\<lambda>a d. 16 * a + d) 0 (d0 # ds))"
proof -
  have d0: "d0 < 16" and rest: "\<forall>d \<in> set ds. d < 16" using assms by auto
  have "skip_prefix 16 (map hex_char (d0 # ds)) = map hex_char (d0 # ds)"
    using rest hex_char_plain by (cases ds) (auto simp: skip_prefix_def)
  then show ?thesis
    using digit_in_hex_char[OF d0] int_body_digits[OF rest, of d0]
    by (simp add: int_literal_def)
qed

lemma int16_digits:
  assumes "\<forall>d \<in> set (d0 # ds). d < 16"
  shows "py_int 16 (map hex_char (d0 # ds)) = Inr (int (foldl (\<lambda>a d. 16 * a + d) 0 (d0 # ds)))"
proof -
  have d0: "d0 < 16" using assms by auto
  show ?thesis
    using hex_char_plain[OF d0] int_literal_digits[OF assms]
    by (simp add: py_int_def)
qed

lemma int16_neg_digits:
  assumes "\<forall>d \<in> set (d0 # ds). d < 16"
  shows "py_int 16 (CHR ''-'' # map hex_char (d0 # ds)) = Inr (- int (foldl (\<lambda>a d. 16 * a + d) 0 (d0 # ds)))"
proof -
  have sp: "\<not> is_space CHR ''-''" by (simp add: is_space_def)
  show ?thesis
    using sp int_literal_digits[OF assms]
    by (simp add: py_int_def)
qed

lemma foldl_zeros: "foldl (\<lambda>a d. 16 * a + d) 0 (replicate k (0::nat)) = 0"
  by (induction k) auto

lemma padded_digits:
  "\<exists>d0 ds. replicate k 0 @ digits16 n = d0 # ds \<and> (\<forall>d \<in> set (d0 # ds). d < 16)"
proof -
  have "replicate k 0 @ digits16 n \<noteq> []" using digits16_nonempty by simp
  then obtain d0 ds where e: "replicate k 0 @ digits16 n = d0 # ds" by (cases "replicate k 0 @ digits16 n") auto
  have "\<forall>d \<in> set (replicate k 0 @ digits16 n). d < 16" using digits16_lt by auto
  then show ?thesis using e by auto
qed

lemma zero_char: "CHR ''0'' = hex_char 0"
  by (simp add: hex_char_def)

lemma int16_format_0x: "py_int 16 (format_0x width v) = Inr v"
proof (cases "v < 0")
  case False
  define k where "k = width - length (digits16 (nat v))"
  obtain d0 ds where e: "replicate k 0 @ digits16 (nat v) = d0 # ds" and lt: "\<forall>d \<in> set (d0 # ds). d < 16"
    using padded_digits by blast
  have "format_0x width v = map hex_char (replicate k 0 @ digits16 (nat v))"
    using False by (simp add: format_0x_def k_def zero_char)
  then have "py_int 16 (format_0x width v) = Inr (int (foldl (\<lambda>a d. 16 * a + d) 0 (replicate k 0 @ digits16 (nat v))))"
    using int16_digits[OF lt] e by simp
  then show ?thesis using False by (simp add: foldl_zeros digits16_value)
next
  case True
  define k where "k = width - 1 - length (digits16 (nat (- v)))"
  obtain d0 ds where e: "replicate k 0 @ digits16 (nat (- v)) = d0 # ds" and lt: "\<forall>d \<in> set (d0 # ds). d < 16"
    using padded_digits by blast
  have "format_0x width v = CHR ''-'' # map hex_char (replicate k 0 @ digits16 (nat (- v)))"
    using True by (simp add: format_0x_def k_def zero_char)
  then have "py_int 16 (format_0x width v) = Inr (- int (foldl (\<lambda>a d. 16 * a + d) 0 (replicate k 0 @ digits16 (nat (- v)))))"
    using int16_neg_digits[OF lt] e by simp
  then show ?thesis using True by (simp add: foldl_zeros digits16_value)
qed

lemma length_digits16: "n < 16 ^ w \<Longrightarrow> 0 < w \<Longrightarrow> length (digits16 n) \<le> w"
proof (induction n arbitrary: w rule: digits16.induct)
  case (1 n)
  show ?case
  proof (cases "n < 16")
    case True
    then show ?thesis using "1.prems" by (simp add: digits16_simps[of n])
  next
    case False
    obtain w' where w: "w = Suc w'" using "1.prems"(2) by (cases w) auto
    have "w' \<noteq> 0" using False "1.prems"(1) w by (cases w') auto
    moreover have "n div 16 < 16 ^ w'" using "1.prems"(1) w by (simp add: less_mult_imp_div_less mult.commute)
    ultimately have "length (digits16 (n div 16)) \<le> w'" using "1.IH"[OF False] by simp
    then show ?thesis using False w by (simp add: digits16_simps[of n])
  qed
qed

lemma length_format_0x: "0 \<le> v \<Longrightarrow> v < 16 ^ w \<Longrightarrow> 0 < w \<Longrightarrow> length (format_0x w v) = w"
proof -
  assume a: "0 \<le> v" "v < 16 ^ w" "0 < w"
  have "nat v < 16 ^ w" using a by (metis nat_less_iff of_nat_numeral of_nat_power)
  then have "length (digits16 (nat v)) \<le> w" using a(3) by (rule length_digits16)
  then show ?thesis using a by (simp add: format_0x_def)
qed

lemma update_params_keys:
  "update_params ops self_attr params param_values = Inr params' \<Longrightarrow> map fst params' = map fst params"
proof (induction param_values arbitrary: params)
  case Nil
  then show ?case by simp
next
  case (Cons kv pv)
  obtain k v where kv: "kv = (k, v)" by (cases kv)
  have ds: "\<And>x. map fst (dict_set params k x) = map fst params"
    by (auto simp: dict_set_def)
  from Cons.prems show ?case
    using Cons.IH ds
    by (auto simp: kv split: option.splits if_splits sum.splits)
qed

lemma find_Inr:
  assumes "find_files_and_match_params ops env self_attr patterns params param_values regex = (evs, Inr res)"
  shows "\<exists>params' gp. update_params ops self_attr params param_values = Inr params'
           \<and> glob_pattern_of ops env patterns params' = Inr gp \<and> evs = [Glob gp]
           \<and> match_paths ops params' regex (glob env gp) (map (\<lambda>(k, p). (k, PyNone)) params') []
                (map (\<lambda>(k, p). (k, [])) params') = Inr res"
  using assms
  by (auto simp: find_files_and_match_params_def split: sum.splits)

lemma map_fst_const: "map fst (map (\<lambda>(k, p). (k, c)) d) = map fst d"
  by (induction d) auto

lemma match_paths_init:
  assumes "distinct (map fst params)"
  shows "match_paths ops params regex paths (map (\<lambda>(k, p). (k, PyNone)) params) []
                (map (\<lambda>(k, p). (k, [])) params) =
     (case kept ops params regex paths of
        Inl e \<Rightarrow> Inl e
      | Inr r \<Rightarrow> Inr (map fst r, foldl zip_append (map (\<lambda>(k, p). (k, [])) params) (map snd r)))"
proof -
  have k1: "map fst (map (\<lambda>(k, p). (k, PyNone)) params) = map fst params"
    by (rule map_fst_const)
  have k2: "map fst (map (\<lambda>(k, p). (k, [])) params) = map fst params"
    by (rule map_fst_const)
  show ?thesis
    using match_paths_eq[OF assms k1 k2, of ops regex paths "[]"]
    by (simp split: sum.splits)
qed

lemma find_eq:
  assumes d: "distinct (map fst params)"
      and u: "update_params ops self_attr params param_values = Inr params'"
      and g: "glob_pattern_of ops env patterns params' = Inr gp"
  shows "find_files_and_match_params ops env self_attr patterns params param_values regex =
     ([Glob gp],
      case kept ops params' regex (glob env gp) of
        Inl e \<Rightarrow> Inl e
      | Inr r \<Rightarrow> Inr (map fst r, foldl zip_append (map (\<lambda>(k, p). (k, [])) params') (map snd r)))"
proof -
  have "distinct (map fst params')" using d update_params_keys[OF u] by simp
  from match_paths_init[OF this] show ?thesis
    using u g by (simp add: find_files_and_match_params_def)
qed

lemma example_update:
  "update_params spec_filter_ops Map.empty [(''visit'', visit_filter)]
     [(''visit'', PyTuple [PyVal 100, PyVal 105])]
   = Inr [(''visit'', \<lparr>sf_kind = IntKind, sf_width = 6, sf_query = Range 100 105\<rparr>)]"
  by (simp add: spec_filter_ops_def set_query_def visit_filter_def dict_set_def)

lemma example_glob_pattern:
  "glob_pattern_of spec_filter_ops (example_env names) [''/data'', ''*''] params = Inr ''/data/*''"
  by (simp add: glob_pattern_of_def example_env_def os_path_join_def join2_def)

lemma dict_comprehension_fails:
  "(\<forall>(k', p') \<in> set d1. \<exists>v. f k' p' = Inr v) \<Longrightarrow> f k p = Inl e \<Longrightarrow>
   dict_comprehension f (d1 @ (k, p) # d2) = Inl e"
  by (induction d1) auto

lemma dict_comprehension_first_failure:
  "dict_comprehension f d = Inl e \<Longrightarrow>
   \<exists>d1 k p d2. d = d1 @ (k, p) # d2 \<and> (\<forall>(k', p') \<in> set d1. \<exists>v. f k' p' = Inr v) \<and> f k p = Inl e"
proof (induction d)
  case Nil
  then show ?case by simp
next
  case (Cons a d)
  obtain k0 p0 where a: "a = (k0, p0)" by (cases a)
  show ?case
  proof (cases "f k0 p0")
    case (Inl e0)
    then have "e0 = e" using Cons.prems by (simp add: a)
    then have "a # d = [] @ (k0, p0) # d \<and> (\<forall>(k', p') \<in> set []. \<exists>v. f k' p' = Inr v) \<and> f k0 p0 = Inl e"
      using Inl a by simp
    then show ?thesis by blast
  next
    case (Inr b)
    then have "dict_comprehension f d = Inl e"
      using Cons.prems by (simp add: a split: sum.splits)
    from Cons.IH[OF this] obtain d1 k p d2 where
      d: "d = d1 @ (k, p) # d2" and ok: "\<forall>(k', p') \<in> set d1. \<exists>v. f k' p' = Inr v"
      and bad: "f k p = Inl e" by blast
    have "a # d = ((k0, p0) # d1) @ (k, p) # d2" using d a by simp
    moreover have "\<forall>(k', p') \<in> set ((k0, p0) # d1). \<exists>v. f k' p' = Inr v"
      using ok Inr by simp
    ultimately show ?thesis using bad by blast
  qed
qed

lemma kept_fails:
  "(\<forall>c \<in> set pre. \<forall>m'. regex c = Some m' \<longrightarrow>
      (\<exists>vals. dict_comprehension (parse_group ops m') params = Inr vals)) \<Longrightarrow>
   regex path = Some m \<Longrightarrow> dict_comprehension (parse_group ops m) params = Inl e \<Longrightarrow>
   kept ops params regex (pre @ path # post) = Inl e"
proof (induction pre)
  case Nil
  then show ?case by simp
next
  case (Cons c pre)
  have ih: "kept ops params regex (pre @ path # post) = Inl e"
    using Cons by simp
  show ?case
  proof (cases "regex c")
    case None
    then show ?thesis using ih by simp
  next
    case (Some m')
    then obtain vals where "dict_comprehension (parse_group ops m') params = Inr vals"
      using Cons.prems(1) by auto
    then show ?thesis using Some ih by simp
  qed
qed

lemma kept_first_failure:
  "kept ops params regex paths = Inl e \<Longrightarrow>
   \<exists>pre path post m. paths = pre @ path # post
     \<and> (\<forall>c \<in> set pre. \<forall>m'. regex c = Some m' \<longrightarrow>
           (\<exists>vals. dict_comprehension (parse_group ops m') params = Inr vals))
     \<and> regex path = Some m \<and> dict_comprehension (parse_group ops m) params = Inl e"
proof (induction paths)
  case Nil
  then show ?case by simp
next
  case (Cons a paths)
  show ?case
  proof (cases "regex a")
    case None
    then have "kept ops params regex paths = Inl e" using Cons.prems by simp
    from Cons.IH[OF this] obtain pre path post m where
      p: "paths = pre @ path # post"
      and ok: "\<forall>c \<in> set pre. \<forall>m'. regex c = Some m' \<longrightarrow>
           (\<exists>vals. dict_comprehension (parse_group ops m') params = Inr vals)"
      and r: "regex path = Some m" and bad: "dict_comprehension (parse_group ops m) params = Inl e"
      by blast
    have "a # paths = (a # pre) @ path # post" using p by simp
    moreover have "\<forall>c \<in> set (a # pre). \<forall>m'. regex c = Some m' \<longrightarrow>
           (\<exists>vals. dict_comprehension (parse_group ops m') params = Inr vals)"
      using ok None by simp
    ultimately show ?thesis using r bad by blast
  next
    case (Some ma)
    show ?thesis
    proof (cases "dict_comprehension (parse_group ops ma) params")
      case (Inl e0)
      then have "e0 = e" using Cons.prems Some by simp
      then have "a # paths = [] @ a # paths
          \<and> (\<forall>c \<in> set []. \<forall>m'. regex c = Some m' \<longrightarrow>
                (\<exists>vals. dict_comprehension (parse_group ops m') params = Inr vals))
          \<and> regex a = Some ma \<and> dict_comprehension (parse_group ops ma) params = Inl e"
        using Inl Some by simp
      then show ?thesis by blast
    next
      case (Inr vals)
      then have "kept ops params regex paths = Inl e"
        using Cons.prems Some by (simp split: sum.splits)
      from Cons.IH[OF this] obtain pre path post m where
        p: "paths = pre @ path # post"
        and ok: "\<forall>c \<in> set pre. \<forall>m'. regex c = Some m' \<longrightarrow>
             (\<exists>vals. dict_comprehension (parse_group ops m') params = Inr vals)"
        and r: "regex path = Some m" and bad: "dict_comprehension (parse_group ops m) params = Inl e"
        by blast
      have "a # paths = (a # pre) @ path # post" using p by simp
      moreover have "\<forall>c \<in> set (a # pre). \<forall>m'. regex c = Some m' \<longrightarrow>
             (\<exists>vals. dict_comprehension (parse_group ops m') params = Inr vals)"
        using ok Some Inr by simp
      ultimately show ?thesis using r bad by blast
    qed
  qed
qed


lemma discovery_raises_iff:
  assumes "distinct (map fst params)"
      and "update_params ops self_attr params param_values = Inr params'"
      and "glob_pattern_of ops env patterns params' = Inr glob_pattern"
  shows "find_files_and_match_params ops env self_attr patterns params param_values regex
           = ([Glob glob_pattern], Inl e)
         \<longleftrightarrow> kept ops params' regex (glob env glob_pattern) = Inl e"
  using find_eq[OF assms, of regex]
  by (cases "kept ops params' regex (glob env glob_pattern)") auto

lemma kept_Inl_iff:
  "kept ops params regex paths = Inl e \<longleftrightarrow>
   (\<exists>pre path post m ps1 k p ps2.
      paths = pre @ path # post
    \<and> (\<forall>c \<in> set pre. \<forall>m'. regex c = Some m' \<longrightarrow>
          (\<forall>(k', p') \<in> set params. \<exists>v. parse_group ops m' k' p' = Inr v))
    \<and> regex path = Some m \<and> params = ps1 @ (k, p) # ps2
    \<and> (\<forall>(k', p') \<in> set ps1. \<exists>v. parse_group ops m k' p' = Inr v)
    \<and> parse_group ops m k p = Inl e)"
proof
  assume "kept ops params regex paths = Inl e"
  from kept_first_failure[OF this] obtain pre path post m where
    p: "paths = pre @ path # post"
    and ok: "\<forall>c \<in> set pre. \<forall>m'. regex c = Some m' \<longrightarrow>
           (\<exists>vals. dict_comprehension (parse_group ops m') params = Inr vals)"
    and r: "regex path = Some m" and bad: "dict_comprehension (parse_group ops m) params = Inl e"
    by blast
  from dict_comprehension_first_failure[OF bad] obtain ps1 k q ps2 where
    ps: "params = ps1 @ (k, q) # ps2"
    and ok1: "\<forall>(k', p') \<in> set ps1. \<exists>v. parse_group ops m k' p' = Inr v"
    and bad1: "parse_group ops m k q = Inl e" by blast
  have ok': "\<forall>c \<in> set pre. \<forall>m'. regex c = Some m' \<longrightarrow>
          (\<forall>(k', p') \<in> set params. \<exists>v. parse_group ops m' k' p' = Inr v)"
    using ok by (simp add: dict_comprehension_total)
  show "\<exists>pre path post m ps1 k p ps2.
      paths = pre @ path # post
    \<and> (\<forall>c \<in> set pre. \<forall>m'. regex c = Some m' \<longrightarrow>
          (\<forall>(k', p') \<in> set params. \<exists>v. parse_group ops m' k' p' = Inr v))
    \<and> regex path = Some m \<and> params = ps1 @ (k, p) # ps2
    \<and> (\<forall>(k', p') \<in> set ps1. \<exists>v. parse_group ops m k' p' = Inr v)
    \<and> parse_group ops m k p = Inl e"
    using p ok' r ps ok1 bad1 by blast
next
  assume "\<exists>pre path post m ps1 k p ps2.
      paths = pre @ path # post
    \<and> (\<forall>c \<in> set pre. \<forall>m'. regex c = Some m' \<longrightarrow>
          (\<forall>(k', p') \<in> set params. \<exists>v. parse_group ops m' k' p' = Inr v))
    \<and> regex path = Some m \<and> params = ps1 @ (k, p) # ps2
    \<and> (\<forall>(k', p') \<in> set ps1. \<exists>v. parse_group ops m k' p' = Inr v)
    \<and> parse_group ops m k p = Inl e"
  then obtain pre path post m ps1 k q ps2 where
    p: "paths = pre @ path # post"
    and ok: "\<forall>c \<in> set pre. \<forall>m'. regex c = Some m' \<longrightarrow>
          (\<forall>(k', p') \<in> set params. \<exists>v. parse_group ops m' k' p' = Inr v)"
    and r: "regex path = Some m" and ps: "params = ps1 @ (k, q) # ps2"
    and ok1: "\<forall>(k', p') \<in> set ps1. \<exists>v. parse_group ops m k' p' = Inr v"
    and bad1: "parse_group ops m k q = Inl e" by blast
  have bad: "dict_comprehension (parse_group ops m) params = Inl e"
    unfolding ps using ok1 bad1 by (rule dict_comprehension_fails)
  have ok': "\<forall>c \<in> set pre. \<forall>m'. regex c = Some m' \<longrightarrow>
           (\<exists>vals. dict_comprehension (parse_group ops m') params = Inr vals)"
    using ok by (simp add: dict_comprehension_total)
  show "kept ops params regex paths = Inl e"
    unfolding p using ok' r bad by (rule kept_fails)
qed

lemma dropped_iff:
  assumes all: "\<forall>m. regex path = Some m \<longrightarrow>
                  (\<forall>(k, p) \<in> set params. \<exists>v. parse_group ops m k p = Inr v)"
  shows "\<not> accepts ops params regex path \<longleftrightarrow>
         regex path = None
         \<or> (\<exists>m. regex path = Some m
               \<and> (\<exists>(k, p) \<in> set params. \<exists>v. parse_group ops m k p = Inr v \<and> \<not> match ops p v))"
proof (cases "regex path")
  case None
  then show ?thesis by (simp add: accepts_iff)
next
  case (Some m)
  have "(\<forall>(k, p) \<in> set params. \<exists>v. parse_group ops m k p = Inr v \<and> match ops p v)
        \<longleftrightarrow> \<not> (\<exists>(k, p) \<in> set params. \<exists>v. parse_group ops m k p = Inr v \<and> \<not> match ops p v)"
    using all Some by fastforce
  then show ?thesis using Some by (simp add: accepts_iff)
qed

lemma map_of_dict_set:
  "map_of (dict_set d k0 x) k = (if k = k0 then map_option (\<lambda>_. x) (map_of d k0) else map_of d k)"
  by (induction d) (auto simp: dict_set_def)

lemma update_params_lookup:
  assumes "distinct (map fst param_values)"
      and "update_params ops self_attr params param_values = Inr params'"
      and "map_of params k = Some p"
  shows "case map_of param_values k of
           None \<Rightarrow> map_of params' k = Some p
         | Some v \<Rightarrow>
             if v \<noteq> PyNone
             then (\<exists>p'. set_values ops p v = Inr p' \<and> map_of params' k = Some p')
             else (case self_attr k of
                     Some a \<Rightarrow> (\<exists>p'. set_values ops p a = Inr p' \<and> map_of params' k = Some p')
                   | None \<Rightarrow> map_of params' k = Some p)"
  using assms
proof (induction param_values arbitrary: params p)
  case Nil
  then show ?case by simp
next
  case (Cons kv pv)
  obtain k0 v0 where kv: "kv = (k0, v0)" by (cases kv)
  have dpv: "distinct (map fst pv)" and k0pv: "k0 \<notin> fst ` set pv"
    using Cons.prems(1) kv by auto
  have none: "k = k0 \<Longrightarrow> map_of pv k = None"
    using k0pv by (simp add: map_of_eq_None_iff)
  show ?case
  proof (cases "map_of params k0")
    case None
    then have ne: "k \<noteq> k0" using Cons.prems(3) by auto
    have "update_params ops self_attr params pv = Inr params'"
      using Cons.prems(2) None by (simp add: kv)
    from Cons.IH[OF dpv this Cons.prems(3)] show ?thesis using ne by (simp add: kv)
  next
    case (Some p0)
    consider (setv) "v0 \<noteq> PyNone" | (attr) a where "v0 = PyNone" "self_attr k0 = Some a"
      | (skip) "v0 = PyNone" "self_attr k0 = None"
      by (cases "self_attr k0") auto
    then show ?thesis
    proof cases
      case setv
      then obtain p0' where s: "set_values ops p0 v0 = Inr p0'"
        and u: "update_params ops self_attr (dict_set params k0 p0') pv = Inr params'"
        using Cons.prems(2) Some by (auto simp: kv split: sum.splits)
      show ?thesis
      proof (cases "k = k0")
        case True
        then have pp: "p = p0" using Some Cons.prems(3) by simp
        have "map_of (dict_set params k0 p0') k = Some p0'"
          using True Some by (simp add: map_of_dict_set)
        from Cons.IH[OF dpv u this] none[OF True] have "map_of params' k = Some p0'" by simp
        then show ?thesis using True setv s pp by (simp add: kv)
      next
        case False
        then have "map_of (dict_set params k0 p0') k = Some p"
          using Cons.prems(3) by (simp add: map_of_dict_set)
        from Cons.IH[OF dpv u this] show ?thesis using False by (simp add: kv)
      qed
    next
      case attr
      then obtain p0' where s: "set_values ops p0 a = Inr p0'"
        and u: "update_params ops self_attr (dict_set params k0 p0') pv = Inr params'"
        using Cons.prems(2) Some by (auto simp: kv split: sum.splits)
      show ?thesis
      proof (cases "k = k0")
        case True
        then have pp: "p = p0" using Some Cons.prems(3) by simp
        have "map_of (dict_set params k0 p0') k = Some p0'"
          using True Some by (simp add: map_of_dict_set)
        from Cons.IH[OF dpv u this] none[OF True] have "map_of params' k = Some p0'" by simp
        then show ?thesis using True attr s pp by (simp add: kv)
      next
        case False
        then have "map_of (dict_set params k0 p0') k = Some p"
          using Cons.prems(3) by (simp add: map_of_dict_set)
        from Cons.IH[OF dpv u this] show ?thesis using False by (simp add: kv)
      qed
    next
      case skip
      then have u: "update_params ops self_attr params pv = Inr params'"
        using Cons.prems(2) Some by (simp add: kv)
      show ?thesis
      proof (cases "k = k0")
        case True
        from Cons.IH[OF dpv u Cons.prems(3)] none[OF True] have "map_of params' k = Some p" by simp
        then show ?thesis using True skip by (simp add: kv)
      next
        case False
        from Cons.IH[OF dpv u Cons.prems(3)] show ?thesis using False by (simp add: kv)
      qed
    qed
  qed
qed

lemma update_params_total:
  "\<forall>p v. \<exists>p'. set_values ops p v = Inr p' \<Longrightarrow>
   \<exists>params'. update_params ops self_attr params param_values = Inr params'"
proof (induction param_values arbitrary: params)
  case Nil
  then show ?case by simp
next
  case (Cons kv pv)
  obtain k v where kv: "kv = (k, v)" by (cases kv)
  have ih: "\<And>ps. \<exists>params'. update_params ops self_attr ps pv = Inr params'"
    using Cons by blast
  have sv: "\<And>p v. \<exists>p'. set_values ops p v = Inr p'" using Cons.prems by blast
  show ?case
  proof (cases "map_of params k")
    case None
    then show ?thesis using ih by (simp add: kv)
  next
    case (Some p)
    show ?thesis
    proof (cases "v \<noteq> PyNone")
      case True
      obtain p' where "set_values ops p v = Inr p'" using sv by blast
      then show ?thesis using Some True ih[of "dict_set params k p'"] by (simp add: kv)
    next
      case False
      show ?thesis
      proof (cases "self_attr k")
        case None
        then show ?thesis using Some False ih by (simp add: kv)
      next
        case a: (Some a)
        obtain p' where "set_values ops p a = Inr p'" using sv by blast
        then show ?thesis using Some False a ih[of "dict_set params k p'"] by (simp add: kv)
      qed
    qed
  qed
qed

lemma example_fallback:
  "update_params spec_filter_ops (getattr_connector example_defaults)
     [(''visit'', visit_filter), (''date'', visit_filter), (''tract'', visit_filter)]
     [(''visit'', PyNone), (''date'', PyNone), (''catId'', PyVal 3)]
   = Inr [(''visit'', \<lparr>sf_kind = IntKind, sf_width = 6, sf_query = Single 7\<rparr>),
          (''date'', visit_filter), (''tract'', visit_filter)]"
  by (simp add: spec_filter_ops_def set_query_def visit_filter_def dict_set_def
      getattr_connector_def example_defaults_def example_connector_def init_def)

lemma list_index_anchor:
  "x \<in> set xs \<Longrightarrow> \<exists>i. list_index xs x = Inr i \<and> i < length xs \<and> xs ! i = x \<and> x \<notin> set (take i xs)"
proof (induction xs)
  case Nil
  then show ?case by simp
next
  case (Cons y ys)
  show ?case
  proof (cases "y = x")
    case True
    then show ?thesis by simp
  next
    case False
    then have "x \<in> set ys" using Cons.prems by simp
    from Cons.IH[OF this] obtain i where
      "list_index ys x = Inr i" "i < length ys" "ys ! i = x" "x \<notin> set (take i ys)" by blast
    then show ?thesis using False by simp
  qed
qed

lemma get_datadir_anchor:
  assumes "list_index dirs x = Inr i"
  shows "bind_io (pure_io (map_sum id (\<lambda>i. (dirs, int i)) (list_index dirs x)))
           (\<lambda>(dirs, rerun_index).
              if rerun_index \<noteq> - 1
              then pure_io (Inr (abspath env (str_join ''/'' (take (nat rerun_index) dirs))))
              else pure_io (abspath_arg env d))
         = ([], Inr (abspath env (str_join ''/'' (take i dirs))))"
  using assms by (simp add: bind_io_def pure_io_def)


section \<open>Locating a single file\<close>

text \<open>
  C3 (as the code has it). \<open>__get_single_file\<close> over the result of a find: with no file
  it raises \<open>FileNotFoundError\<close> with the message "No file found matching the query.";
  with two or more files it raises \<open>FileNotFoundError\<close> again, with the message
  "Multiple files found matching the query." (the same exception class, told apart by the
  message only, and no file is picked); with exactly one file and one value per identity
  field it returns that path and the identity record, each field collapsed from its
  one-element list.
\<close>

theorem get_single_file_cases:
  "get_single_file [] ids = Inl (Exn FileNotFoundError ''No file found matching the query.'')
   \<and> get_single_file (p # q # ps) ids
       = Inl (Exn FileNotFoundError ''Multiple files found matching the query.'')
   \<and> get_single_file [p] (map (\<lambda>(k, x). (k, [x])) ident) = Inr (p, ident)"
  by (simp add: get_single_file_def dict_comprehension_singletons)

text \<open>
  C3 as stated asks for an error kind for the ambiguous case that is distinct from the
  kind for the empty case. The two calls below raise exceptions of one class.
\<close>

theorem get_single_file_same_class_counterexample:
  "\<not> (\<exists>e0 e2.
        get_single_file [] [(''pfsDesignId'', [])] = Inl e0
      \<and> get_single_file [''pfsDesign-0x0000000000000001.fits'', ''pfsDesign-0x0000000000000002.fits'']
            [(''pfsDesignId'', [1, 2 :: int])] = Inl e2
      \<and> exn_class e0 \<noteq> exn_class e2)"
  by (auto simp: get_single_file_def)

section \<open>Round trip of hexadecimal identifiers\<close>

text \<open>
  C5. For the hexadecimal filter, parsing inverts formatting: for every non-negative
  integer \<open>v\<close> that fits the sixteen hexadecimal digits of the format \<open>'{:016x}'\<close>, the
  formatted string has exactly sixteen characters and \<open>int(..., 16)\<close> of it is \<open>v\<close>.
\<close>

theorem hex_filter_round_trip:
  "0 \<le> v \<Longrightarrow> v < 16 ^ 16 \<Longrightarrow>
   HexIDFilter_parse_value (Some (format_value_016x v)) = Inr v \<and> length (format_value_016x v) = 16"
  using int16_format_0x[of 16 v] length_format_0x[of v 16]
  by (simp add: HexIDFilter_parse_value_def format_value_016x_def)

theorem hex_filter_round_trip_witness:
  "format_value_016x 42 = ''000000000000002a''
   \<and> HexIDFilter_parse_value (Some ''000000000000002a'') = Inr 42
   \<and> length ''000000000000002a'' = 16"
proof -
  have f: "format_value_016x 42 = ''000000000000002a''" by code_simp
  have "(0::int) \<le> 42" and "(42::int) < 16 ^ 16" by simp_all
  from hex_filter_round_trip[OF this] show ?thesis by (simp add: f)
qed

section \<open>Matching a value against a query\<close>

lemma range_query_discovery:
  "find_files_and_match_params spec_filter_ops
     (example_env [''v000099'', ''v000100'', ''x000101'', ''v000105'', ''v000106''])
     Map.empty [''/data'', ''*''] [(''visit'', visit_filter)]
     [(''visit'', PyTuple [PyVal 100, PyVal 105])] example_regex
   = ([Glob ''/data/*''], Inr ([''/data/v000100'', ''/data/v000105''], [(''visit'', [PyVal 100, PyVal 105])]))"
  by code_simp

text \<open>
  C6. \<open>matches(v)\<close> is true for the unconstrained query; for a single-value query it is
  true exactly when \<open>v\<close> is that value; for a set query exactly when \<open>v\<close> is a member; for
  a range query \<open>(min, max)\<close> exactly when \<open>min <= v <= max\<close>, both ends included. The
  range \<open>(100, 105)\<close> accepts 100 and 105 and rejects 99 and 106, and discovery with the
  query \<open>visit=(100, 105)\<close> over candidates with the visits 99, 100, 105 and 106 (and one
  candidate the pattern does not match) returns the candidates with the visits 100 and 105.
\<close>

theorem matches_cases:
  "matches Unconstrained v
   \<and> (matches (Single a) v \<longleftrightarrow> v = a)
   \<and> (matches (SetOf xs) v \<longleftrightarrow> v \<in> set xs)
   \<and> (matches (Range lo hi) v \<longleftrightarrow> lo \<le> v \<and> v \<le> hi)
   \<and> matches (Range 100 105) (100 :: int) \<and> matches (Range 100 105) (105 :: int)
   \<and> \<not> matches (Range 100 105) (99 :: int) \<and> \<not> matches (Range 100 105) (106 :: int)
   \<and> find_files_and_match_params spec_filter_ops
        (example_env [''v000099'', ''v000100'', ''x000101'', ''v000105'', ''v000106''])
        Map.empty [''/data'', ''*''] [(''visit'', visit_filter)]
        [(''visit'', PyTuple [PyVal 100, PyVal 105])] example_regex
      = ([Glob ''/data/*''], Inr ([''/data/v000100'', ''/data/v000105''], [(''visit'', [PyVal 100, PyVal 105])]))"
  using range_query_discovery by (simp add: matches_def)

theorem matches_cases_witness:
  "matches Unconstrained (7 :: int)
   \<and> matches (Single 7) (7 :: int) \<and> \<not> matches (Single 7) (8 :: int)
   \<and> matches (SetOf [3, 5, 7]) (5 :: int) \<and> \<not> matches (SetOf [3, 5, 7]) (4 :: int)
   \<and> matches (Range 3 7) (3 :: int) \<and> matches (Range 3 7) (7 :: int)
   \<and> \<not> matches (Range 3 7) (2 :: int) \<and> \<not> matches (Range 3 7) (8 :: int)"
  using matches_cases[of "7 :: int" 7 "[3, 5, 7]" 3 7]
        matches_cases[of "8 :: int" 7 "[3, 5, 7]" 3 7]
        matches_cases[of "5 :: int" 7 "[3, 5, 7]" 3 7]
        matches_cases[of "4 :: int" 7 "[3, 5, 7]" 3 7]
        matches_cases[of "3 :: int" 7 "[3, 5, 7]" 3 7]
        matches_cases[of "2 :: int" 7 "[3, 5, 7]" 3 7]
  by simp

section \<open>Which candidates discovery keeps\<close>

text \<open>
  C1. Let \<open>params'\<close> be the filters after the query update and \<open>glob_pattern\<close> the glob
  expression of the call. Whenever discovery returns, the returned paths are exactly the
  candidates of the glob expansion that are accepted, in the order of the expansion; a
  candidate is accepted if and only if the pattern matches it and every filter's
  \<open>match\<close> is true for the value parsed from its capture group. A candidate the pattern
  does not match is dropped and never makes the call fail: discovery returns whenever
  the groups of the matching candidates parse.
\<close>

theorem discovery_keeps_matching_candidates:
  assumes "distinct (map fst params)"
      and "update_params ops self_attr params param_values = Inr params'"
      and "glob_pattern_of ops env patterns params' = Inr glob_pattern"
  shows "(\<forall>evs files ids.
            find_files_and_match_params ops env self_attr patterns params param_values regex
              = (evs, Inr (files, ids))
            \<longrightarrow> files = filter (accepts ops params' regex) (glob env glob_pattern))
       \<and> ((\<forall>path \<in> set (glob env glob_pattern). \<forall>m. regex path = Some m \<longrightarrow>
              (\<forall>(k, p) \<in> set params'. \<exists>v. parse_group ops m k p = Inr v))
            \<longrightarrow> (\<exists>ids. find_files_and_match_params ops env self_attr patterns params param_values regex
                   = ([Glob glob_pattern],
                      Inr (filter (accepts ops params' regex) (glob env glob_pattern), ids))))
       \<and> (\<forall>path. accepts ops params' regex path \<longleftrightarrow>
            (\<exists>m. regex path = Some m
               \<and> (\<forall>(k, p) \<in> set params'. \<exists>v. parse_group ops m k p = Inr v \<and> match ops p v)))"
proof (intro conjI allI impI)
  fix evs files ids
  assume "find_files_and_match_params ops env self_attr patterns params param_values regex
              = (evs, Inr (files, ids))"
  then obtain r where "kept ops params' regex (glob env glob_pattern) = Inr r" and "files = map fst r"
    using find_eq[OF assms, of regex] by (auto split: sum.splits)
  then show "files = filter (accepts ops params' regex) (glob env glob_pattern)"
    using kept_paths by metis
next
  assume "\<forall>path \<in> set (glob env glob_pattern). \<forall>m. regex path = Some m \<longrightarrow>
              (\<forall>(k, p) \<in> set params'. \<exists>v. parse_group ops m k p = Inr v)"
  then obtain r where r: "kept ops params' regex (glob env glob_pattern) = Inr r"
    using kept_total[of ops params' regex "glob env glob_pattern"] by blast
  then have "map fst r = filter (accepts ops params' regex) (glob env glob_pattern)"
    by (rule kept_paths)
  then show "\<exists>ids. find_files_and_match_params ops env self_attr patterns params param_values regex
                   = ([Glob glob_pattern],
                      Inr (filter (accepts ops params' regex) (glob env glob_pattern), ids))"
    using find_eq[OF assms, of regex] r by simp
next
  fix path
  show "accepts ops params' regex path \<longleftrightarrow>
            (\<exists>m. regex path = Some m
               \<and> (\<forall>(k, p) \<in> set params'. \<exists>v. parse_group ops m k p = Inr v \<and> match ops p v))"
    by (rule accepts_iff)
qed

theorem discovery_keeps_matching_candidates_witness:
  "find_files_and_match_params spec_filter_ops
     (example_env [''v000099'', ''v000100'', ''x000101'', ''v000105'', ''v000106''])
     Map.empty [''/data'', ''*''] [(''visit'', visit_filter)]
     [(''visit'', PyTuple [PyVal 100, PyVal 105])] example_regex
   = ([Glob ''/data/*''], Inr ([''/data/v000100'', ''/data/v000105''], [(''visit'', [PyVal 100, PyVal 105])]))
   \<and> filter (accepts spec_filter_ops
               [(''visit'', \<lparr>sf_kind = IntKind, sf_width = 6, sf_query = Range 100 105\<rparr>)] example_regex)
        [''/data/v000099'', ''/data/v000100'', ''/data/x000101'', ''/data/v000105'', ''/data/v000106'']
      = [''/data/v000100'', ''/data/v000105'']"
proof -
  have d: "distinct (map fst [(''visit'', visit_filter)])" by simp
  note t = discovery_keeps_matching_candidates[OF d example_update example_glob_pattern,
      of "[''v000099'', ''v000100'', ''x000101'', ''v000105'', ''v000106'']" example_regex]
  have g: "glob (example_env [''v000099'', ''v000100'', ''x000101'', ''v000105'', ''v000106'']) ''/data/*''
           = [''/data/v000099'', ''/data/v000100'', ''/data/x000101'', ''/data/v000105'', ''/data/v000106'']"
    by (simp add: example_env_def)
  from t range_query_discovery g show ?thesis by metis
qed

section \<open>A token that does not parse\<close>

text \<open>
  C2 as stated has a candidate whose token fails to parse dropped, with discovery going
  on. The loop has no handler: with the files \<open>v000100\<close>, \<open>vzz\<close> and \<open>v000105\<close> in the
  directory, the \<open>ValueError\<close> of \<open>int('zz')\<close> leaves the call, and no candidate is
  returned.
\<close>

theorem discovery_parse_error_counterexample:
  "find_files_and_match_params spec_filter_ops
     (example_env [''v000100'', ''vzz'', ''v000105''])
     Map.empty [''/data'', ''*''] [(''visit'', visit_filter)]
     [(''visit'', PyTuple [PyVal 100, PyVal 105])] example_regex
   = ([Glob ''/data/*''], Inl (Exn ValueError ''invalid literal for int()''))"
  by code_simp

text \<open>
  C2 (as the code has it). Discovery has no handling of parse failures. Once the glob
  expression is formed, the call raises if and only if some candidate the pattern matches
  has a capture group that fails to parse for one of the filters. The exception that
  leaves the call is the one raised for the first such token, in the order of the
  candidates and then of the filters: the call raises \<open>e\<close> exactly when the candidates
  split into a front where every group of every matching candidate parses, and a
  candidate the pattern matches for which the filters split into a front whose groups
  parse and a filter for which \<open>parse_value(match.group(k))\<close> raises \<open>e\<close>. No result is
  returned then. When the call returns, a candidate is missing from the returned paths
  if and only if the pattern does not match it or some filter's \<open>match\<close> is false for
  the value parsed from its group.
\<close>

theorem parse_failure_aborts_discovery:
  assumes "distinct (map fst params)"
      and "update_params ops self_attr params param_values = Inr params'"
      and "glob_pattern_of ops env patterns params' = Inr glob_pattern"
  shows "((\<exists>e. find_files_and_match_params ops env self_attr patterns params param_values regex
               = ([Glob glob_pattern], Inl e))
          \<longleftrightarrow> (\<exists>path \<in> set (glob env glob_pattern). \<exists>m k p e.
                 regex path = Some m \<and> (k, p) \<in> set params' \<and> parse_group ops m k p = Inl e))
       \<and> (\<forall>e. find_files_and_match_params ops env self_attr patterns params param_values regex
                 = ([Glob glob_pattern], Inl e)
               \<longleftrightarrow> (\<exists>pre path post m ps1 k p ps2.
                      glob env glob_pattern = pre @ path # post
                    \<and> (\<forall>c \<in> set pre. \<forall>m'. regex c = Some m' \<longrightarrow>
                          (\<forall>(k', p') \<in> set params'. \<exists>v. parse_group ops m' k' p' = Inr v))
                    \<and> regex path = Some m \<and> params' = ps1 @ (k, p) # ps2
                    \<and> (\<forall>(k', p') \<in> set ps1. \<exists>v. parse_group ops m k' p' = Inr v)
                    \<and> parse_group ops m k p = Inl e))
       \<and> (\<forall>evs files ids.
             find_files_and_match_params ops env self_attr patterns params param_values regex
               = (evs, Inr (files, ids))
             \<longrightarrow> (\<forall>path \<in> set (glob env glob_pattern).
                    path \<notin> set files \<longleftrightarrow>
                      regex path = None
                      \<or> (\<exists>m. regex path = Some m
                            \<and> (\<exists>(k, p) \<in> set params'. \<exists>v.
                                  parse_group ops m k p = Inr v \<and> \<not> match ops p v))))"
proof (intro conjI allI impI ballI)
  have "(\<exists>e. find_files_and_match_params ops env self_attr patterns params param_values regex
               = ([Glob glob_pattern], Inl e))
        \<longleftrightarrow> \<not> (\<exists>r. kept ops params' regex (glob env glob_pattern) = Inr r)"
    using find_eq[OF assms, of regex]
    by (cases "kept ops params' regex (glob env glob_pattern)") auto
  also have "\<dots> \<longleftrightarrow> (\<exists>path \<in> set (glob env glob_pattern). \<exists>m k p e.
                regex path = Some m \<and> (k, p) \<in> set params' \<and> parse_group ops m k p = Inl e)"
  proof -
    have ne: "\<And>x :: exn + ('a, 'b) pyobj. (\<forall>v. x \<noteq> Inr v) \<longleftrightarrow> (\<exists>e. x = Inl e)"
      by (metis sum.exhaust sum.distinct(1))
    have "(\<not> (\<forall>path \<in> set (glob env glob_pattern). \<forall>m. regex path = Some m \<longrightarrow>
              (\<forall>(k, p) \<in> set params'. \<exists>v. parse_group ops m k p = Inr v)))
          \<longleftrightarrow> (\<exists>path \<in> set (glob env glob_pattern). \<exists>m. regex path = Some m \<and>
                 (\<exists>x \<in> set params'. \<exists>e. parse_group ops m (fst x) (snd x) = Inl e))"
      by (simp add: split_beta ne)
    also have "\<dots> \<longleftrightarrow> (\<exists>path \<in> set (glob env glob_pattern). \<exists>m k p e.
                regex path = Some m \<and> (k, p) \<in> set params' \<and> parse_group ops m k p = Inl e)"
      by (rule iffI; clarsimp; metis prod.collapse fst_conv snd_conv)
    finally show ?thesis unfolding kept_total .
  qed
  finally show "(\<exists>e. find_files_and_match_params ops env self_attr patterns params param_values regex
               = ([Glob glob_pattern], Inl e))
          \<longleftrightarrow> (\<exists>path \<in> set (glob env glob_pattern). \<exists>m k p e.
                 regex path = Some m \<and> (k, p) \<in> set params' \<and> parse_group ops m k p = Inl e)" .
next
  fix e
  show "find_files_and_match_params ops env self_attr patterns params param_values regex
                 = ([Glob glob_pattern], Inl e)
               \<longleftrightarrow> (\<exists>pre path post m ps1 k p ps2.
                      glob env glob_pattern = pre @ path # post
                    \<and> (\<forall>c \<in> set pre. \<forall>m'. regex c = Some m' \<longrightarrow>
                          (\<forall>(k', p') \<in> set params'. \<exists>v. parse_group ops m' k' p' = Inr v))
                    \<and> regex path = Some m \<and> params' = ps1 @ (k, p) # ps2
                    \<and> (\<forall>(k', p') \<in> set ps1. \<exists>v. parse_group ops m k' p' = Inr v)
                    \<and> parse_group ops m k p = Inl e)"
    unfolding discovery_raises_iff[OF assms] by (rule kept_Inl_iff)
next
  fix evs files ids path
  assume f: "find_files_and_match_params ops env self_attr patterns params param_values regex
               = (evs, Inr (files, ids))"
    and mem: "path \<in> set (glob env glob_pattern)"
  obtain r where r: "kept ops params' regex (glob env glob_pattern) = Inr r" and "files = map fst r"
    using f find_eq[OF assms, of regex] by (auto split: sum.splits)
  then have files: "files = filter (accepts ops params' regex) (glob env glob_pattern)"
    using kept_paths by metis
  have "\<forall>m. regex path = Some m \<longrightarrow>
          (\<forall>(k, p) \<in> set params'. \<exists>v. parse_group ops m k p = Inr v)"
    using r mem kept_total[of ops params' regex "glob env glob_pattern"] by blast
  from dropped_iff[where regex = regex and path = path and params = params' and ops = ops, OF this] show "path \<notin> set files \<longleftrightarrow>
                      regex path = None
                      \<or> (\<exists>m. regex path = Some m
                            \<and> (\<exists>(k, p) \<in> set params'. \<exists>v.
                                  parse_group ops m k p = Inr v \<and> \<not> match ops p v))"
    using files mem by simp
qed

theorem parse_failure_aborts_discovery_witness:
  "find_files_and_match_params spec_filter_ops
         (example_env [''v000100'', ''vzz'', ''v000105''])
         Map.empty [''/data'', ''*''] [(''visit'', visit_filter)]
         [(''visit'', PyTuple [PyVal 100, PyVal 105])] example_regex
       = ([Glob ''/data/*''], Inl (Exn ValueError ''invalid literal for int()''))
   \<and> (\<exists>v. parse_group spec_filter_ops [''visit'' \<mapsto> Some ''000099''] ''visit''
              \<lparr>sf_kind = IntKind, sf_width = 6, sf_query = Range 100 105\<rparr> = Inr v
          \<and> \<not> match spec_filter_ops \<lparr>sf_kind = IntKind, sf_width = 6, sf_query = Range 100 105\<rparr> v)"
proof -
  let ?f = "\<lparr>sf_kind = IntKind, sf_width = 6, sf_query = Range 100 105\<rparr>"
  have d: "distinct (map fst [(''visit'', visit_filter)])" by simp
  note t = parse_failure_aborts_discovery[OF d example_update example_glob_pattern,
      of "[''v000100'', ''vzz'', ''v000105'']" example_regex]
  note u = parse_failure_aborts_discovery[OF d example_update example_glob_pattern,
      of "[''v000099'', ''v000100'', ''x000101'', ''v000105'', ''v000106'']" example_regex]
  have g: "glob (example_env [''v000100'', ''vzz'', ''v000105'']) ''/data/*''
            = [''/data/v000100''] @ ''/data/vzz'' # [''/data/v000105'']"
    by (simp add: example_env_def)
  have r0: "\<forall>c \<in> set [''/data/v000100'']. \<forall>m'. example_regex c = Some m' \<longrightarrow>
              (\<forall>(k', p') \<in> set [(''visit'', ?f)]. \<exists>v. parse_group spec_filter_ops m' k' p' = Inr v)"
  proof -
    have "example_regex ''/data/v000100'' = Some [''visit'' \<mapsto> Some ''000100'']"
      by (simp add: example_regex_def)
    moreover have "parse_group spec_filter_ops [''visit'' \<mapsto> Some ''000100''] ''visit'' ?f
                     = Inr (PyVal 100)"
      by code_simp
    ultimately show ?thesis by simp
  qed
  have r: "example_regex ''/data/vzz'' = Some [''visit'' \<mapsto> Some ''zz'']"
    by (simp add: example_regex_def)
  have ps: "[(''visit'', ?f)] = [] @ (''visit'', ?f) # []" by simp
  have p: "parse_group spec_filter_ops [''visit'' \<mapsto> Some ''zz''] ''visit'' ?f
           = Inl (Exn ValueError ''invalid literal for int()'')"
    by code_simp
  have "\<exists>pre path post m ps1 k p ps2.
          glob (example_env [''v000100'', ''vzz'', ''v000105'']) ''/data/*'' = pre @ path # post
        \<and> (\<forall>c \<in> set pre. \<forall>m'. example_regex c = Some m' \<longrightarrow>
              (\<forall>(k', p') \<in> set [(''visit'', ?f)]. \<exists>v. parse_group spec_filter_ops m' k' p' = Inr v))
        \<and> example_regex path = Some m \<and> [(''visit'', ?f)] = ps1 @ (k, p) # ps2
        \<and> (\<forall>(k', p') \<in> set ps1. \<exists>v. parse_group spec_filter_ops m k' p' = Inr v)
        \<and> parse_group spec_filter_ops m k p = Inl (Exn ValueError ''invalid literal for int()'')"
    using g r0 r ps p
    by (intro exI[of _ "[''/data/v000100'']"] exI[of _ "''/data/vzz''"] exI[of _ "[''/data/v000105'']"]
        exI[of _ "[''visit'' \<mapsto> Some ''zz'']"] exI[of _ "[]"] exI[of _ "''visit''"] exI[of _ ?f]
        exI[of _ "[]"]) simp
  then have a: "find_files_and_match_params spec_filter_ops
         (example_env [''v000100'', ''vzz'', ''v000105''])
         Map.empty [''/data'', ''*''] [(''visit'', visit_filter)]
         [(''visit'', PyTuple [PyVal 100, PyVal 105])] example_regex
       = ([Glob ''/data/*''], Inl (Exn ValueError ''invalid literal for int()''))"
    using t by blast
  have g2: "''/data/v000099''
      \<in> set (glob (example_env [''v000099'', ''v000100'', ''x000101'', ''v000105'', ''v000106'']) ''/data/*'')"
    by (simp add: example_env_def)
  have n: "''/data/v000099'' \<notin> set [''/data/v000100'', ''/data/v000105'']" by simp
  have r9: "example_regex ''/data/v000099'' = Some [''visit'' \<mapsto> Some ''000099'']"
    by (simp add: example_regex_def)
  have "example_regex ''/data/v000099'' = None
          \<or> (\<exists>m. example_regex ''/data/v000099'' = Some m
                \<and> (\<exists>(k, p) \<in> set [(''visit'', ?f)]. \<exists>v.
                      parse_group spec_filter_ops m k p = Inr v \<and> \<not> match spec_filter_ops p v))"
    using u range_query_discovery g2 n by blast
  then have b: "\<exists>v. parse_group spec_filter_ops [''visit'' \<mapsto> Some ''000099''] ''visit'' ?f = Inr v
          \<and> \<not> match spec_filter_ops ?f v"
    using r9 by simp
  show ?thesis using a b by blast
qed

section \<open>The result of discovery is aligned\<close>

text \<open>
  C8. For every result of discovery, which is the list of paths and the namespace of
  per-name lists: the names of the namespace are exactly the names of the filters, in
  their order; every per-name list is as long as the list of paths; and for every
  position \<open>i\<close> and every filter, the pattern matches the path at position \<open>i\<close> and
  position \<open>i\<close> of the filter's list holds the value that the filter (after the query
  update) parsed from its capture group of that path.
\<close>

theorem discovery_results_aligned:
  assumes "distinct (map fst params)"
      and "find_files_and_match_params ops env self_attr patterns params param_values regex
             = (evs, Inr (files, ids))"
  shows "map fst ids = map fst params
       \<and> (\<forall>(k, l) \<in> set ids. length l = length files)
       \<and> (\<exists>params'. update_params ops self_attr params param_values = Inr params'
            \<and> (\<forall>i < length files. \<forall>j < length params'. \<exists>m.
                  regex (files ! i) = Some m
                  \<and> parse_group ops m (fst (params' ! j)) (snd (params' ! j)) = Inr (snd (ids ! j) ! i)))"
proof -
  from find_Inr[OF assms(2)] obtain params' gp where
    u: "update_params ops self_attr params param_values = Inr params'" and
    g: "glob_pattern_of ops env patterns params' = Inr gp" by blast
  have keys: "map fst params' = map fst params" using u by (rule update_params_keys)
  obtain r where r: "kept ops params' regex (glob env gp) = Inr r"
    and files: "files = map fst r"
    and ids: "ids = foldl zip_append (map (\<lambda>(k, p). (k, [])) params') (map snd r)"
    using find_eq[OF assms(1) u g, of regex] assms(2) by (auto split: sum.splits)
  let ?ids0 = "map (\<lambda>(k, p). (k, [])) params' :: (string \<times> ('a, 'b) pyobj list) list"
  have lens: "\<forall>vals \<in> set (map snd r). length vals = length ?ids0"
  proof
    fix vals assume "vals \<in> set (map snd r)"
    then obtain path where "(path, vals) \<in> set r" by auto
    from kept_keys[OF r this] have "length (map fst vals) = length (map fst params')" by simp
    then show "length vals = length ?ids0" by simp
  qed
  note fz = foldl_zip_append[OF lens]
  have len_ids: "length ids = length params'" using fz ids by simp
  have nth_ids: "\<And>j. j < length params' \<Longrightarrow>
      ids ! j = (fst (params' ! j), map (\<lambda>vals. snd (vals ! j)) (map snd r))"
    using fz ids by (simp add: split_beta)
  have k: "map fst ids = map fst params'"
    by (rule nth_equalityI) (simp_all add: len_ids nth_ids)
  have l: "\<forall>(k, l) \<in> set ids. length l = length files"
  proof -
    have "\<And>x. x \<in> set ids \<Longrightarrow> length (snd x) = length files"
    proof -
      fix x assume "x \<in> set ids"
      then obtain j where "j < length ids" "x = ids ! j" by (auto simp: in_set_conv_nth)
      then show "length (snd x) = length files" using nth_ids len_ids files by simp
    qed
    then show ?thesis by auto
  qed
  have a: "\<forall>i < length files. \<forall>j < length params'. \<exists>m.
                  regex (files ! i) = Some m
                  \<and> parse_group ops m (fst (params' ! j)) (snd (params' ! j)) = Inr (snd (ids ! j) ! i)"
  proof (intro allI impI)
    fix i j assume i: "i < length files" and j: "j < length params'"
    have ir: "i < length r" using i files by simp
    then have mem: "(files ! i, snd (r ! i)) \<in> set r"
      using files by (metis nth_map nth_mem prod.collapse)
    from kept_sound[OF r mem] obtain m where
      m: "regex (files ! i) = Some m" and
      dc: "dict_comprehension (parse_group ops m) params' = Inr (snd (r ! i))" by blast
    have "parse_group ops m (fst (params' ! j)) (snd (params' ! j)) = Inr (snd (snd (r ! i) ! j))"
      using dict_comprehension_nth[OF dc j] .
    moreover have "snd (ids ! j) ! i = snd (snd (r ! i) ! j)"
      using nth_ids[OF j] ir by simp
    ultimately show "\<exists>m. regex (files ! i) = Some m
                  \<and> parse_group ops m (fst (params' ! j)) (snd (params' ! j)) = Inr (snd (ids ! j) ! i)"
      using m by simp
  qed
  show ?thesis using k keys l u a by auto
qed

theorem discovery_results_aligned_witness:
  "map fst [(''visit'', [PyVal 100, PyVal 105 :: (spec_filter, int) pyobj])] = map fst [(''visit'', visit_filter)]
   \<and> length [PyVal 100, PyVal 105 :: (spec_filter, int) pyobj] = length [''/data/v000100'', ''/data/v000105'']
   \<and> parse_group spec_filter_ops [''visit'' \<mapsto> Some ''000105''] ''visit''
        \<lparr>sf_kind = IntKind, sf_width = 6, sf_query = Range 100 105\<rparr> = Inr (PyVal 105)"
proof -
  have d: "distinct (map fst [(''visit'', visit_filter)])" by simp
  note t = discovery_results_aligned[OF d range_query_discovery]
  from t obtain params' where
    u: "update_params spec_filter_ops Map.empty [(''visit'', visit_filter)]
          [(''visit'', PyTuple [PyVal 100, PyVal 105])] = Inr params'" and
    a: "\<forall>i < length [''/data/v000100'', ''/data/v000105'']. \<forall>j < length params'. \<exists>m.
          example_regex ([''/data/v000100'', ''/data/v000105''] ! i) = Some m
          \<and> parse_group spec_filter_ops m (fst (params' ! j)) (snd (params' ! j))
              = Inr (snd ([(''visit'', [PyVal 100, PyVal 105])] ! j) ! i)"
    by blast
  have p: "params' = [(''visit'', \<lparr>sf_kind = IntKind, sf_width = 6, sf_query = Range 100 105\<rparr>)]"
    using u example_update by simp
  have i: "(1::nat) < length [''/data/v000100'', ''/data/v000105'']" and j: "(0::nat) < length params'"
    using p by simp_all
  have "\<exists>m. example_regex ([''/data/v000100'', ''/data/v000105''] ! 1) = Some m
          \<and> parse_group spec_filter_ops m (fst (params' ! 0)) (snd (params' ! 0))
              = Inr (snd ([(''visit'', [PyVal 100, PyVal 105])] ! 0) ! 1)"
    using a[rule_format, OF i j] .
  then have "parse_group spec_filter_ops [''visit'' \<mapsto> Some ''000105''] ''visit''
        \<lparr>sf_kind = IntKind, sf_width = 6, sf_query = Range 100 105\<rparr> = Inr (PyVal 105)"
    using p by (simp add: example_regex_def)
  then show ?thesis using t by simp
qed

section \<open>Setting up the queries\<close>

text \<open>
  C9. The query update at the start of discovery, for every filter name \<open>k\<close> with filter
  \<open>p\<close> (\<open>param_values\<close> are the caller's keyword arguments, a dict): if the caller gives
  a value other than \<open>None\<close> for \<open>k\<close>, the filter of that name afterwards is \<open>p\<close> with its
  query set to that value; if the caller gives \<open>None\<close> and the connector has an attribute
  \<open>k\<close>, the query is set to that attribute, the connector's default filter; if the caller
  gives \<open>None\<close> and the connector has no such attribute, or if the caller does not name
  \<open>k\<close>, the filter is left as it was. The update returns whenever the setter of the
  filters does not raise. For the connector class the attributes are those of
  \<open>getattr_connector\<close>: there is a default filter for \<open>pfsDesignId\<close>, \<open>catId\<close>, \<open>tract\<close>,
  \<open>patch\<close>, \<open>objId\<close> and \<open>visit\<close>, and none for \<open>date\<close>.
\<close>

theorem query_setup:
  assumes "distinct (map fst param_values)"
  shows "(\<forall>params' k p.
            update_params ops self_attr params param_values = Inr params' \<and> map_of params k = Some p
            \<longrightarrow> (case map_of param_values k of
                   None \<Rightarrow> map_of params' k = Some p
                 | Some v \<Rightarrow>
                     if v \<noteq> PyNone
                     then (\<exists>p'. set_values ops p v = Inr p' \<and> map_of params' k = Some p')
                     else (case self_attr k of
                             Some a \<Rightarrow> (\<exists>p'. set_values ops p a = Inr p' \<and> map_of params' k = Some p')
                           | None \<Rightarrow> map_of params' k = Some p)))
       \<and> ((\<forall>p v. \<exists>p'. set_values ops p v = Inr p')
            \<longrightarrow> (\<exists>params'. update_params ops self_attr params param_values = Inr params'))"
  using update_params_lookup[OF assms] update_params_total[of ops self_attr params param_values]
  by blast

theorem query_setup_witness:
  "(\<exists>p'. set_values spec_filter_ops visit_filter (PyTuple [PyVal 100, PyVal 105]) = Inr p'
        \<and> map_of [(''visit'', \<lparr>sf_kind = IntKind, sf_width = 6, sf_query = Range 100 105\<rparr>)] ''visit''
            = Some p')
   \<and> (\<exists>p'. set_values spec_filter_ops visit_filter
              (PyFilter \<lparr>sf_kind = IntKind, sf_width = 6, sf_query = Single 7\<rparr>) = Inr p'
        \<and> map_of [(''visit'', \<lparr>sf_kind = IntKind, sf_width = 6, sf_query = Single 7\<rparr>),
                   (''date'', visit_filter), (''tract'', visit_filter)] ''visit'' = Some p')
   \<and> map_of [(''visit'', \<lparr>sf_kind = IntKind, sf_width = 6, sf_query = Single 7\<rparr>),
              (''date'', visit_filter), (''tract'', visit_filter)] ''date'' = Some visit_filter
   \<and> map_of [(''visit'', \<lparr>sf_kind = IntKind, sf_width = 6, sf_query = Single 7\<rparr>),
              (''date'', visit_filter), (''tract'', visit_filter)] ''tract'' = Some visit_filter"
proof -
  have d1: "distinct (map fst [(''visit'', PyTuple [PyVal 100, PyVal 105 :: (spec_filter, int) pyobj])])"
    by simp
  have d2: "distinct (map fst [(''visit'', PyNone), (''date'', PyNone),
              (''catId'', PyVal 3 :: (spec_filter, int) pyobj)])"
    by simp
  have m1: "map_of [(''visit'', visit_filter)] ''visit'' = Some visit_filter" by simp
  have m2: "map_of [(''visit'', visit_filter), (''date'', visit_filter), (''tract'', visit_filter)]
              ''visit'' = Some visit_filter" by simp
  have m3: "map_of [(''visit'', visit_filter), (''date'', visit_filter), (''tract'', visit_filter)]
              ''date'' = Some visit_filter" by simp
  have m4: "map_of [(''visit'', visit_filter), (''date'', visit_filter), (''tract'', visit_filter)]
              ''tract'' = Some visit_filter" by simp
  have g1: "getattr_connector example_defaults ''visit''
              = Some (PyFilter \<lparr>sf_kind = IntKind, sf_width = 6, sf_query = Single 7\<rparr>
                       :: (spec_filter, int) pyobj)"
    by (simp add: getattr_connector_def example_defaults_def)
  have g2: "getattr_connector example_defaults ''date'' = (None :: (spec_filter, int) pyobj option)"
    by (simp add: getattr_connector_def)
  note q1 = query_setup[OF d1, where ops = spec_filter_ops and self_attr = Map.empty
      and params = "[(''visit'', visit_filter)]", THEN conjunct1, rule_format]
  note q2 = query_setup[OF d2, where ops = spec_filter_ops
      and self_attr = "getattr_connector example_defaults"
      and params = "[(''visit'', visit_filter), (''date'', visit_filter), (''tract'', visit_filter)]",
      THEN conjunct1, rule_format]
  note t1 = q1[OF conjI[OF example_update m1]]
  note t2 = q2[OF conjI[OF example_fallback m2]]
  note t3 = q2[OF conjI[OF example_fallback m3]]
  note t4 = q2[OF conjI[OF example_fallback m4]]
  have a: "\<exists>p'. set_values spec_filter_ops visit_filter (PyTuple [PyVal 100, PyVal 105]) = Inr p'
        \<and> map_of [(''visit'', \<lparr>sf_kind = IntKind, sf_width = 6, sf_query = Range 100 105\<rparr>)] ''visit''
            = Some p'"
    using t1 by simp
  have b: "\<exists>p'. set_values spec_filter_ops visit_filter
              (PyFilter \<lparr>sf_kind = IntKind, sf_width = 6, sf_query = Single 7\<rparr>) = Inr p'
        \<and> map_of [(''visit'', \<lparr>sf_kind = IntKind, sf_width = 6, sf_query = Single 7\<rparr>),
                   (''date'', visit_filter), (''tract'', visit_filter)] ''visit'' = Some p'"
    using t2 g1 by simp
  have c: "map_of [(''visit'', \<lparr>sf_kind = IntKind, sf_width = 6, sf_query = Single 7\<rparr>),
              (''date'', visit_filter), (''tract'', visit_filter)] ''date'' = Some visit_filter"
    using t3 g2 by simp
  have e: "map_of [(''visit'', \<lparr>sf_kind = IntKind, sf_width = 6, sf_query = Single 7\<rparr>),
              (''date'', visit_filter), (''tract'', visit_filter)] ''tract'' = Some visit_filter"
    using t4 by simp
  show ?thesis using a b c e by blast
qed

section \<open>A file name that does not match\<close>

text \<open>
  C7. \<open>__parse_filename_params(path, params, regex, required)\<close>: when the pattern does not
  match the path and \<open>required\<close> is true, the call raises the \<open>ValueError\<close> "Filename does
  not match expected format: ..." (the error that the specification calls
  \<open>FormatMismatchError\<close>) and logs nothing; when the pattern does not match and
  \<open>required\<close> is false, the call logs that message as a warning and returns \<open>None\<close>; when
  the pattern matches and every filter parses its named capture group, the call logs
  nothing and returns an identifier with the names of the filters, in their order, whose
  value for every name is \<open>parse_value\<close> of that filter on the capture group of that name;
  when the pattern matches and some group does not parse, the call raises.
\<close>

theorem parse_filename_params_cases:
  "(regex path = None \<and> required \<longrightarrow>
      parse_filename_params ops path params regex required
        = ([], Inl (Exn ValueError (''Filename does not match expected format: '' @ path))))
   \<and> (regex path = None \<and> \<not> required \<longrightarrow>
      parse_filename_params ops path params regex required
        = ([Warning (''Filename does not match expected format: '' @ path)], Inr None))
   \<and> (\<forall>m. regex path = Some m \<and> (\<forall>(k, p) \<in> set params. \<exists>v. parse_group ops m k p = Inr v) \<longrightarrow>
        (\<exists>ident. parse_filename_params ops path params regex required = ([], Inr (Some ident))
           \<and> map fst ident = map fst params
           \<and> (\<forall>j < length params.
                 parse_group ops m (fst (params ! j)) (snd (params ! j)) = Inr (snd (ident ! j)))))
   \<and> (\<forall>m. regex path = Some m \<and> (\<exists>(k, p) \<in> set params. \<exists>e. parse_group ops m k p = Inl e) \<longrightarrow>
        (\<exists>e. parse_filename_params ops path params regex required = ([], Inl e)))"
proof (intro conjI allI impI)
  assume "regex path = None \<and> required"
  then show "parse_filename_params ops path params regex required
        = ([], Inl (Exn ValueError (''Filename does not match expected format: '' @ path)))"
    by (simp add: parse_filename_params_def throw_or_warn_def bind_io_def)
next
  assume "regex path = None \<and> \<not> required"
  then show "parse_filename_params ops path params regex required
        = ([Warning (''Filename does not match expected format: '' @ path)], Inr None)"
    by (simp add: parse_filename_params_def throw_or_warn_def bind_io_def pure_io_def)
next
  fix m
  assume a: "regex path = Some m \<and> (\<forall>(k, p) \<in> set params. \<exists>v. parse_group ops m k p = Inr v)"
  then obtain ident where i: "dict_comprehension (parse_group ops m) params = Inr ident"
    using dict_comprehension_total[of "parse_group ops m" params] by blast
  have "parse_filename_params ops path params regex required = ([], Inr (Some ident))"
    using a i by (simp add: parse_filename_params_def pure_io_def)
  moreover have "map fst ident = map fst params"
    using i by (rule dict_comprehension_keys)
  moreover have "\<forall>j < length params.
      parse_group ops m (fst (params ! j)) (snd (params ! j)) = Inr (snd (ident ! j))"
    using dict_comprehension_nth[OF i] by blast
  ultimately show "\<exists>ident. parse_filename_params ops path params regex required = ([], Inr (Some ident))
           \<and> map fst ident = map fst params
           \<and> (\<forall>j < length params.
                 parse_group ops m (fst (params ! j)) (snd (params ! j)) = Inr (snd (ident ! j)))"
    by blast
next
  fix m
  assume a: "regex path = Some m \<and> (\<exists>(k, p) \<in> set params. \<exists>e. parse_group ops m k p = Inl e)"
  then have "\<not> (\<forall>(k, p) \<in> set params. \<exists>v. parse_group ops m k p = Inr v)"
    by fastforce
  then have "\<not> (\<exists>vals. dict_comprehension (parse_group ops m) params = Inr vals)"
    using dict_comprehension_total[of "parse_group ops m" params] by simp
  then obtain e where "dict_comprehension (parse_group ops m) params = Inl e"
    by (cases "dict_comprehension (parse_group ops m) params") auto
  then show "\<exists>e. parse_filename_params ops path params regex required = ([], Inl e)"
    using a by (simp add: parse_filename_params_def pure_io_def)
qed

theorem parse_filename_params_cases_witness:
  "parse_filename_params spec_filter_ops ''w000100'' [(''visit'', visit_filter)] example_regex True
     = ([], Inl (Exn ValueError ''Filename does not match expected format: w000100''))
   \<and> parse_filename_params spec_filter_ops ''w000100'' [(''visit'', visit_filter)] example_regex False
     = ([Warning ''Filename does not match expected format: w000100''], Inr None)
   \<and> (\<exists>ident. parse_filename_params spec_filter_ops ''v000100'' [(''visit'', visit_filter)] example_regex True
         = ([], Inr (Some ident))
       \<and> map fst ident = [''visit'']
       \<and> snd (ident ! 0) = PyVal 100)
   \<and> (\<exists>e. parse_filename_params spec_filter_ops ''vzz'' [(''visit'', visit_filter)] example_regex True
         = ([], Inl e))"
proof -
  have n: "example_regex ''w000100'' = None" by (simp add: example_regex_def)
  have m: "example_regex ''v000100'' = Some [''visit'' \<mapsto> Some ''000100'']"
    by (simp add: example_regex_def)
  have z: "example_regex ''vzz'' = Some [''visit'' \<mapsto> Some ''zz'']"
    by (simp add: example_regex_def)
  have p: "parse_group spec_filter_ops [''visit'' \<mapsto> Some ''000100''] ''visit'' visit_filter
             = Inr (PyVal 100)"
    by code_simp
  have q: "parse_group spec_filter_ops [''visit'' \<mapsto> Some ''zz''] ''visit'' visit_filter
             = Inl (Exn ValueError ''invalid literal for int()'')"
    by code_simp
  note t1 = parse_filename_params_cases[of example_regex "''w000100''" True spec_filter_ops
      "[(''visit'', visit_filter)]"]
  note t2 = parse_filename_params_cases[of example_regex "''w000100''" False spec_filter_ops
      "[(''visit'', visit_filter)]"]
  note t3 = parse_filename_params_cases[of example_regex "''v000100''" True spec_filter_ops
      "[(''visit'', visit_filter)]"]
  note t4 = parse_filename_params_cases[of example_regex "''vzz''" True spec_filter_ops
      "[(''visit'', visit_filter)]"]
  have c1: "parse_filename_params spec_filter_ops ''w000100'' [(''visit'', visit_filter)] example_regex True
     = ([], Inl (Exn ValueError ''Filename does not match expected format: w000100''))"
    using t1 n by simp
  have c2: "parse_filename_params spec_filter_ops ''w000100'' [(''visit'', visit_filter)] example_regex False
     = ([Warning ''Filename does not match expected format: w000100''], Inr None)"
    using t2 n by simp
  have c3: "\<exists>ident. parse_filename_params spec_filter_ops ''v000100'' [(''visit'', visit_filter)] example_regex True
         = ([], Inr (Some ident))
       \<and> map fst ident = [''visit'']
       \<and> snd (ident ! 0) = PyVal 100"
    using t3 m p by force
  have c4: "\<exists>e. parse_filename_params spec_filter_ops ''vzz'' [(''visit'', visit_filter)] example_regex True
         = ([], Inl e)"
    using t4 z q by simp
  show ?thesis using c1 c2 c3 c4 by blast
qed

section \<open>The data directory without a reference path\<close>

text \<open>
  C10 as stated has \<open>get_datadir\<close> without a reference path never raise. A connector
  constructed without a data directory, in an environment that does not set
  \<open>GAPIPE_DATADIR\<close>, has \<open>None\<close> for its data directory, and
  \<open>os.path.abspath(None)\<close> raises \<open>TypeError\<close>.
\<close>

theorem get_datadir_unconfigured_counterexample:
  "get_datadir (example_env []) (init example_classes Map.empty None None None) None False
     = ([], Inl (Exn TypeError ''expected str, bytes or os.PathLike object, not NoneType''))"
  by (simp add: get_datadir_def bind_io_def pure_io_def abspath_arg_def init_def get_envvar_def)

text \<open>
  C10 (as the code has it). Without a reference path \<open>get_datadir\<close> attempts no inference,
  logs nothing and does not look at \<open>required\<close>: for a connector that has a data
  directory it returns the absolute path of that directory, and for a connector whose
  data directory is \<open>None\<close> it raises the \<open>TypeError\<close> of \<open>os.path.abspath(None)\<close>, for
  either value of \<open>required\<close>. The flag matters only for a reference path without any of
  the anchor directories \<open>rerun\<close>, \<open>pfsConfig\<close> and \<open>pfsDesign\<close>: then the call raises
  \<open>ValueError\<close> when \<open>required\<close> is true, and otherwise logs a warning and goes on with
  the connector's data directory. For a reference path with an anchor the call returns
  the absolute path of a leading part of the reference path, whatever \<open>required\<close> is.
\<close>

theorem get_datadir_without_reference_path:
  "get_datadir env self None required
     = ([], case datadir self of
              Some d \<Rightarrow> Inr (abspath env d)
            | None \<Rightarrow> Inl (Exn TypeError ''expected str, bytes or os.PathLike object, not NoneType''))
   \<and> (\<forall>path. ''rerun'' \<notin> set (split_sep CHR ''/'' path)
              \<and> ''pfsConfig'' \<notin> set (split_sep CHR ''/'' path)
              \<and> ''pfsDesign'' \<notin> set (split_sep CHR ''/'' path)
        \<longrightarrow> get_datadir env self (Some path) True
              = ([], Inl (Exn ValueError ''Data directory cannot be inferred from reference path.''))
          \<and> get_datadir env self (Some path) False
              = ([Warning ''Data directory cannot be inferred from reference path.''],
                 case datadir self of
                   Some d \<Rightarrow> Inr (abspath env d)
                 | None \<Rightarrow> Inl (Exn TypeError ''expected str, bytes or os.PathLike object, not NoneType'')))
   \<and> (\<forall>path. ''rerun'' \<in> set (split_sep CHR ''/'' path)
              \<or> ''pfsConfig'' \<in> set (split_sep CHR ''/'' path)
              \<or> ''pfsDesign'' \<in> set (split_sep CHR ''/'' path)
        \<longrightarrow> (\<exists>i < length (split_sep CHR ''/'' path).
               get_datadir env self (Some path) required
                 = ([], Inr (abspath env (str_join ''/'' (take i (split_sep CHR ''/'' path)))))))"
proof (intro conjI allI impI)
  show "get_datadir env self None required
     = ([], case datadir self of
              Some d \<Rightarrow> Inr (abspath env d)
            | None \<Rightarrow> Inl (Exn TypeError ''expected str, bytes or os.PathLike object, not NoneType''))"
    by (simp add: get_datadir_def bind_io_def pure_io_def abspath_arg_def)
next
  fix path
  assume "''rerun'' \<notin> set (split_sep CHR ''/'' path)
              \<and> ''pfsConfig'' \<notin> set (split_sep CHR ''/'' path)
              \<and> ''pfsDesign'' \<notin> set (split_sep CHR ''/'' path)"
  then show "get_datadir env self (Some path) True
              = ([], Inl (Exn ValueError ''Data directory cannot be inferred from reference path.''))"
    and "get_datadir env self (Some path) False
              = ([Warning ''Data directory cannot be inferred from reference path.''],
                 case datadir self of
                   Some d \<Rightarrow> Inr (abspath env d)
                 | None \<Rightarrow> Inl (Exn TypeError ''expected str, bytes or os.PathLike object, not NoneType''))"
    by (simp_all add: get_datadir_def bind_io_def pure_io_def abspath_arg_def throw_or_warn_def Let_def)
next
  fix path
  let ?dirs = "split_sep CHR ''/'' path"
  assume a: "''rerun'' \<in> set ?dirs \<or> ''pfsConfig'' \<in> set ?dirs \<or> ''pfsDesign'' \<in> set ?dirs"
  then consider (rerun) "''rerun'' \<in> set ?dirs"
    | (config) "''rerun'' \<notin> set ?dirs" "''pfsConfig'' \<in> set ?dirs"
    | (design) "''rerun'' \<notin> set ?dirs" "''pfsConfig'' \<notin> set ?dirs" "''pfsDesign'' \<in> set ?dirs"
    by blast
  then show "\<exists>i < length ?dirs.
               get_datadir env self (Some path) required
                 = ([], Inr (abspath env (str_join ''/'' (take i ?dirs))))"
  proof cases
    case rerun
    from list_index_anchor[OF rerun] obtain i where
      i: "list_index ?dirs ''rerun'' = Inr i" "i < length ?dirs" by blast
    have "get_datadir env self (Some path) required
            = ([], Inr (abspath env (str_join ''/'' (take i ?dirs))))"
      using rerun get_datadir_anchor[OF i(1), of env "datadir self"]
      by (simp add: get_datadir_def Let_def)
    then show ?thesis using i(2) by blast
  next
    case config
    from list_index_anchor[OF config(2)] obtain i where
      i: "list_index ?dirs ''pfsConfig'' = Inr i" "i < length ?dirs" by blast
    have "get_datadir env self (Some path) required
            = ([], Inr (abspath env (str_join ''/'' (take i ?dirs))))"
      using config get_datadir_anchor[OF i(1), of env "datadir self"]
      by (simp add: get_datadir_def Let_def)
    then show ?thesis using i(2) by blast
  next
    case design
    from list_index_anchor[OF design(3)] obtain i where
      i: "list_index ?dirs ''pfsDesign'' = Inr i" "i < length ?dirs" by blast
    have "get_datadir env self (Some path) required
            = ([], Inr (abspath env (str_join ''/'' (take i ?dirs))))"
      using design get_datadir_anchor[OF i(1), of env "datadir self"]
      by (simp add: get_datadir_def Let_def)
    then show ?thesis using i(2) by blast
  qed
qed

theorem get_datadir_without_reference_path_witness:
  "get_datadir (example_env []) example_connector None True = ([], Inr ''/data'')
   \<and> get_datadir (example_env []) example_connector None False = ([], Inr ''/data'')
   \<and> get_datadir (example_env []) example_connector (Some ''/home/user/file.fits'') True
        = ([], Inl (Exn ValueError ''Data directory cannot be inferred from reference path.''))
   \<and> get_datadir (example_env []) example_connector (Some ''/home/user/file.fits'') False
        = ([Warning ''Data directory cannot be inferred from reference path.''], Inr ''/data'')
   \<and> (\<exists>i < 6. get_datadir (example_env []) example_connector
                  (Some ''/work/data/pfsConfig/2024-01-01/v000100'') True
                = ([], Inr (str_join ''/''
                     (take i [[], ''work'', ''data'', ''pfsConfig'', ''2024-01-01'', ''v000100'']))))"
proof -
  have d: "datadir example_connector = Some ''/data''"
    by (simp add: example_connector_def init_def)
  have a: "\<And>p. abspath (example_env []) p = p"
    by (simp add: example_env_def)
  have s: "split_sep CHR ''/'' ''/home/user/file.fits'' = [[], ''home'', ''user'', ''file.fits'']"
    by simp
  have s2: "split_sep CHR ''/'' ''/work/data/pfsConfig/2024-01-01/v000100''
              = [[], ''work'', ''data'', ''pfsConfig'', ''2024-01-01'', ''v000100'']"
    by simp
  note t1 = get_datadir_without_reference_path[of "example_env []" example_connector True]
  note t2 = get_datadir_without_reference_path[of "example_env []" example_connector False]
  have c1: "get_datadir (example_env []) example_connector None True = ([], Inr ''/data'')"
    using t1 by (simp add: d a)
  have c2: "get_datadir (example_env []) example_connector None False = ([], Inr ''/data'')"
    using t2 by (simp add: d a)
  have c3: "get_datadir (example_env []) example_connector (Some ''/home/user/file.fits'') True
        = ([], Inl (Exn ValueError ''Data directory cannot be inferred from reference path.''))"
    using t1 by (simp add: s)
  have c4: "get_datadir (example_env []) example_connector (Some ''/home/user/file.fits'') False
        = ([Warning ''Data directory cannot be inferred from reference path.''], Inr ''/data'')"
    using t1 by (simp add: s d a)
  have c5: "\<exists>i < 6. get_datadir (example_env []) example_connector
                  (Some ''/work/data/pfsConfig/2024-01-01/v000100'') True
                = ([], Inr (str_join ''/''
                     (take i [[], ''work'', ''data'', ''pfsConfig'', ''2024-01-01'', ''v000100''])))"
  proof -
    have m: "''pfsConfig'' \<in> set (split_sep CHR ''/'' ''/work/data/pfsConfig/2024-01-01/v000100'')"
      by (simp add: s2)
    from t1 m have "\<exists>i < length (split_sep CHR ''/'' ''/work/data/pfsConfig/2024-01-01/v000100'').
        get_datadir (example_env []) example_connector
          (Some ''/work/data/pfsConfig/2024-01-01/v000100'') True
        = ([], Inr (abspath (example_env [])
             (str_join ''/'' (take i (split_sep CHR ''/'' ''/work/data/pfsConfig/2024-01-01/v000100'')))))"
      by blast
    moreover have "length [[], ''work'', ''data'', ''pfsConfig'', ''2024-01-01'', ''v000100''] = 6"
      by simp
    ultimately show ?thesis unfolding s2 a by metis
  qed
  show ?thesis using c1 c2 c3 c4 c5 by blast
qed

section \<open>Loading by file name or by identity\<close>



end
